theory Spec2Isabelle
  imports Complex_Main
begin

section \<open>Conventions of the embedding\<close>

text \<open>
  The sources are the Mongoose models and Express controllers of the Flux backend.
  \<^item> A JavaScript \<open>Number\<close> that holds money or a percentage is a \<open>rat\<close>: the arithmetic
    is exact, rounding of IEEE doubles is not modelled.
  \<^item> A \<open>Date\<close> is an \<open>int\<close> (milliseconds since the epoch); a nullable date is an
    \<open>int option\<close>.
  \<^item> An \<open>ObjectId\<close> is a \<open>nat\<close>. A collection is the list of its documents.
  \<^item> A thrown exception (a rejected promise) is the \<open>Inl\<close> of a sum type.
  \<^item> Every \<open>new Date()\<close> of one operation reads the same clock value \<open>now env\<close>.
\<close>

datatype error =
    ApiError nat string
  | Error string
  | ValidationError string

fun message :: "error \<Rightarrow> string" where
  "message (ApiError code m) = m"
| "message (Error m) = m"
| "message (ValidationError m) = m"

text \<open>
  The clock, and the two calendar operations of the runtime's \<open>Date\<close> that the models
  call: \<open>setDate(getDate() + n)\<close> and \<open>setMonth(getMonth() + n)\<close>. They belong to the
  JavaScript runtime, so they are parameters of the model.
\<close>

record env =
  now :: int
  plusDays :: "int \<Rightarrow> nat \<Rightarrow> int"
  plusMonths :: "int \<Rightarrow> nat \<Rightarrow> int"

section \<open>Goal model (src/models/Goal.js)\<close>

datatype contribution_source = Manual | AutoSave | Bonus

datatype autosave_frequency = AsWeekly | AsMonthly | AsQuarterly

record contribution =
  c_amount :: rat
  c_date :: int
  c_description :: string
  c_source :: contribution_source

record autosave =
  as_enabled :: bool
  as_amount :: rat
  as_frequency :: autosave_frequency
  as_nextContribution :: "int option"

record goal =
  g_id :: nat
  g_user :: nat
  g_name :: string
  targetAmount :: rat
  currentAmount :: rat
  g_category :: string
  deadline :: int
  isCompleted :: bool
  completedAt :: "int option"
  autoSave :: autosave
  contributions :: "contribution list"
  g_isActive :: bool

definition goal_categories :: "string list" where
  "goal_categories =
     [''emergency'', ''vacation'', ''gadget'', ''car'', ''home'',
      ''education'', ''gift'', ''entertainment'', ''health'', ''other'']"

text \<open>
  The schema's validators (\<open>required\<close>, \<open>maxlength\<close>, \<open>min\<close>, \<open>enum\<close>) on the
  fields of the model. Mongoose validates the whole document before every save
  (\<open>validateModifiedOnly\<close> is off unless asked for), the \<open>deadline\<close> included.
\<close>

definition goal_schema_ok :: "goal \<Rightarrow> bool" where
  "goal_schema_ok g =
     (g_name g \<noteq> [] \<and> length (g_name g) \<le> 100
      \<and> 1 / 100 \<le> targetAmount g
      \<and> 0 \<le> currentAmount g
      \<and> g_category g \<in> set goal_categories
      \<and> 0 \<le> as_amount (autoSave g)
      \<and> list_all (\<lambda>c. 0 \<le> c_amount c) (contributions g))"

text \<open>The custom validator of \<open>deadline\<close>: \<open>date > new Date()\<close>.\<close>

definition deadline_ok :: "env \<Rightarrow> goal \<Rightarrow> bool" where
  "deadline_ok env g = (now env < deadline g)"

definition frequency_name :: "autosave_frequency \<Rightarrow> string" where
  "frequency_name f =
     (case f of AsWeekly \<Rightarrow> ''weekly'' | AsMonthly \<Rightarrow> ''monthly'' | AsQuarterly \<Rightarrow> ''quarterly'')"

definition calculateNextContribution :: "env \<Rightarrow> goal \<Rightarrow> int option" where
  "calculateNextContribution env g =
     (if \<not> as_enabled (autoSave g) then None
      else Some (case as_frequency (autoSave g) of
                   AsWeekly \<Rightarrow> plusDays env (now env) 7
                 | AsMonthly \<Rightarrow> plusMonths env (now env) 1
                 | AsQuarterly \<Rightarrow> plusMonths env (now env) 3))"

text \<open>The \<open>pre('save')\<close> hook of the goal schema.\<close>

definition goal_pre_save :: "env \<Rightarrow> goal \<Rightarrow> goal" where
  "goal_pre_save env g =
     (let g1 = (if targetAmount g \<le> currentAmount g \<and> \<not> isCompleted g
                then g\<lparr>isCompleted := True, completedAt := Some (now env)\<rparr>
                else g)
      in if as_enabled (autoSave g1) \<and> as_nextContribution (autoSave g1) = None
         then g1\<lparr>autoSave := (autoSave g1)\<lparr>as_nextContribution := calculateNextContribution env g1\<rparr>\<rparr>
         else g1)"

text \<open>
  \<open>document.save()\<close>: validation runs first, then the \<open>pre('save')\<close> hook; the result
  is the document as stored. The message of Mongoose's validation error is modelled by
  its fixed prefix.
\<close>

definition goal_save :: "env \<Rightarrow> goal \<Rightarrow> error + goal" where
  "goal_save env g =
     (if goal_schema_ok g \<and> deadline_ok env g
      then Inr (goal_pre_save env g)
      else Inl (ValidationError ''Goal validation failed''))"

definition addContribution ::
  "env \<Rightarrow> rat \<Rightarrow> string \<Rightarrow> contribution_source \<Rightarrow> goal \<Rightarrow> error + goal" where
  "addContribution env amount description source g =
     (if amount \<le> 0 then Inl (Error ''Contribution amount must be positive'')
      else
        let previousAmount = currentAmount g;
            g1 = g\<lparr>currentAmount := min (currentAmount g + amount) (targetAmount g)\<rparr>;
            g2 = g1\<lparr>contributions := contributions g1 @
                   [\<lparr>c_amount = currentAmount g1 - previousAmount,
                     c_date = now env,
                     c_description = description,
                     c_source = source\<rparr>]\<rparr>
        in goal_save env g2)"

section \<open>Goal controller (src/controllers/goalController.js)\<close>

text \<open>
  The goals collection is the list of the stored documents. A successful
  \<open>save()\<close> of a document read from the collection overwrites the stored document
  with the same \<open>_id\<close>. A handler returns what it answers (the \<open>Inl\<close> is the
  error handed to the error middleware) and the collection it leaves behind.
  Fields that no aggregate depends on (description, tags, priority, currency) are left
  out of the documents and of the requests.
\<close>

definition persist_goal :: "goal \<Rightarrow> goal list \<Rightarrow> goal list" where
  "persist_goal g s = map (\<lambda>x. if g_id x = g_id g then g else x) s"

definition is_space :: "char \<Rightarrow> bool" where
  "is_space c = (c \<in> set [CHR '' '', CHR 0x09, CHR 0x0A, CHR 0x0B, CHR 0x0C, CHR 0x0D])"

text \<open>\<open>String.prototype.trim\<close>, on ASCII white space.\<close>

definition trim :: "string \<Rightarrow> string" where
  "trim str = rev (dropWhile is_space (rev (dropWhile is_space str)))"

text \<open>
  The body of \<open>POST /api/goals\<close>. A number that is absent and the number 0 are both
  falsy, so an absent \<open>targetAmount\<close> is the value 0; \<open>currentAmount\<close> defaults to 0.
  (The \<open>None\<close> branch of the deadline below is behind the first check and never
  taken.)
\<close>

record goal_request =
  rq_name :: string
  rq_targetAmount :: rat
  rq_currentAmount :: rat
  rq_category :: string
  rq_deadline :: "int option"
  rq_autoSave :: "autosave option"

definition default_autosave :: autosave where
  "default_autosave =
     \<lparr>as_enabled = False, as_amount = 0, as_frequency = AsMonthly, as_nextContribution = None\<rparr>"

text \<open>\<open>Goal.create\<close>: a new document is saved and inserted.\<close>

definition Goal_create :: "env \<Rightarrow> goal \<Rightarrow> goal list \<Rightarrow> (error + goal) \<times> goal list" where
  "Goal_create env g s =
     (case goal_save env g of
        Inl e \<Rightarrow> (Inl e, s)
      | Inr g' \<Rightarrow> (Inr g', s @ [g']))"

definition createGoal ::
  "env \<Rightarrow> nat \<Rightarrow> nat \<Rightarrow> goal_request \<Rightarrow> goal list \<Rightarrow> (error + goal) \<times> goal list" where
  "createGoal env uid newId rq s =
     (if rq_name rq = [] \<or> rq_targetAmount rq = 0 \<or> rq_category rq = [] \<or> rq_deadline rq = None
      then (Inl (ApiError 400 ''Name, target amount, category, and deadline are required''), s)
      else if rq_targetAmount rq \<le> 0
      then (Inl (ApiError 400 ''Target amount must be greater than 0''), s)
      else if rq_currentAmount rq < 0
      then (Inl (ApiError 400 ''Current amount cannot be negative''), s)
      else
        (case rq_deadline rq of
           None \<Rightarrow> (Inl (ApiError 400 ''Name, target amount, category, and deadline are required''), s)
         | Some dl \<Rightarrow>
             if dl \<le> now env
             then (Inl (ApiError 400 ''Deadline must be in the future''), s)
             else
               (case Goal_create env
                       \<lparr>g_id = newId, g_user = uid, g_name = trim (rq_name rq),
                         targetAmount = rq_targetAmount rq,
                         currentAmount = rq_currentAmount rq,
                         g_category = rq_category rq, deadline = dl,
                         isCompleted = False, completedAt = None,
                         autoSave = (case rq_autoSave rq of None \<Rightarrow> default_autosave | Some a \<Rightarrow> a),
                         contributions = [], g_isActive = True\<rparr> s of
                  (Inl e, s1) \<Rightarrow> (Inl e, s1)
                | (Inr goal, s1) \<Rightarrow>
                    if 0 < rq_currentAmount rq
                    then (case addContribution env (rq_currentAmount rq) ''Initial contribution'' Manual goal of
                            Inl e \<Rightarrow> (Inl e, s1)
                          | Inr goal' \<Rightarrow> (Inr goal', persist_goal goal' s1))
                    else (Inr goal, s1))))"

text \<open>
  \<open>POST /api/goals/:id/contribute\<close>. An absent amount is the value 0 (both falsy), an
  absent description the empty string. The last 400 message ends in the excess printed
  by \<open>toFixed(2)\<close>; the model keeps the text before the number.
\<close>

definition contributeToGoal ::
  "env \<Rightarrow> nat \<Rightarrow> nat \<Rightarrow> rat \<Rightarrow> string \<Rightarrow> goal list \<Rightarrow> (error + goal) \<times> goal list" where
  "contributeToGoal env uid gid amount description s =
     (if amount = 0 \<or> amount \<le> 0
      then (Inl (ApiError 400 ''Valid contribution amount is required''), s)
      else
        (case find (\<lambda>g. g_id g = gid \<and> g_user g = uid \<and> g_isActive g) s of
           None \<Rightarrow> (Inl (ApiError 404 ''Goal not found''), s)
         | Some goal \<Rightarrow>
             if isCompleted goal
             then (Inl (ApiError 400 ''Goal is already completed''), s)
             else
               let remainingAmount = targetAmount goal - currentAmount goal in
               if remainingAmount < amount
               then (Inl (ApiError 400 ''Contribution amount exceeds remaining target by ''), s)
               else
                 (case addContribution env amount
                         (if description = [] then ''Manual contribution'' else description)
                         Manual goal of
                    Inl e \<Rightarrow> (Inl e, s)
                  | Inr goal' \<Rightarrow> (Inr goal', persist_goal goal' s))))"

text \<open>
  \<open>PUT /api/goals/:id\<close>: the fields of \<open>allowedUpdates\<close> that the body defines are
  assigned (the schema trims \<open>name\<close> when it is set).
\<close>

record goal_update =
  up_name :: "string option"
  up_targetAmount :: "rat option"
  up_category :: "string option"
  up_deadline :: "int option"
  up_autoSave :: "autosave option"

definition assign_goal_fields :: "goal_update \<Rightarrow> goal \<Rightarrow> goal" where
  "assign_goal_fields up g =
     (let g1 = (case up_name up of None \<Rightarrow> g | Some n \<Rightarrow> g\<lparr>g_name := trim n\<rparr>);
          g2 = (case up_targetAmount up of None \<Rightarrow> g1 | Some t \<Rightarrow> g1\<lparr>targetAmount := t\<rparr>);
          g3 = (case up_category up of None \<Rightarrow> g2 | Some c \<Rightarrow> g2\<lparr>g_category := c\<rparr>);
          g4 = (case up_deadline up of None \<Rightarrow> g3 | Some d \<Rightarrow> g3\<lparr>deadline := d\<rparr>)
      in (case up_autoSave up of None \<Rightarrow> g4 | Some a \<Rightarrow> g4\<lparr>autoSave := a\<rparr>))"

definition updateGoal ::
  "env \<Rightarrow> nat \<Rightarrow> nat \<Rightarrow> goal_update \<Rightarrow> goal list \<Rightarrow> (error + goal) \<times> goal list" where
  "updateGoal env uid gid up s =
     (case find (\<lambda>g. g_id g = gid \<and> g_user g = uid) s of
        None \<Rightarrow> (Inl (ApiError 404 ''Goal not found''), s)
      | Some goal \<Rightarrow>
          if isCompleted goal
          then (Inl (ApiError 400 ''Cannot update completed goal''), s)
          else
            let goal1 = assign_goal_fields up goal in
            if (case up_deadline up of None \<Rightarrow> False | Some d \<Rightarrow> d \<le> now env)
            then (Inl (ApiError 400 ''Deadline must be in the future''), s)
            else
              (case goal_save env goal1 of
                 Inl e \<Rightarrow> (Inl e, s)
               | Inr goal' \<Rightarrow> (Inr goal', persist_goal goal' s)))"

text \<open>\<open>DELETE /api/goals/:id\<close>: a soft delete.\<close>

definition deleteGoal ::
  "env \<Rightarrow> nat \<Rightarrow> nat \<Rightarrow> goal list \<Rightarrow> (error + unit) \<times> goal list" where
  "deleteGoal env uid gid s =
     (case find (\<lambda>g. g_id g = gid \<and> g_user g = uid) s of
        None \<Rightarrow> (Inl (ApiError 404 ''Goal not found''), s)
      | Some goal \<Rightarrow>
          (case goal_save env (goal\<lparr>g_isActive := False\<rparr>) of
             Inl e \<Rightarrow> (Inl e, s)
           | Inr goal' \<Rightarrow> (Inr (), persist_goal goal' s)))"

text \<open>\<open>Goal.findAutoSaveDue\<close> and \<open>POST /api/goals/process-auto-save\<close>.\<close>

definition findAutoSaveDue :: "env \<Rightarrow> goal list \<Rightarrow> goal list" where
  "findAutoSaveDue env s =
     filter (\<lambda>g. as_enabled (autoSave g)
                \<and> (case as_nextContribution (autoSave g) of None \<Rightarrow> False | Some d \<Rightarrow> d \<le> now env)
                \<and> \<not> isCompleted g
                \<and> g_isActive g) s"

datatype sweep_status = Success | Failed

record sweep_result =
  r_goalId :: nat
  r_goalName :: string
  r_amount :: rat
  r_status :: sweep_status
  r_error :: "string option"

definition autoSave_description :: "goal \<Rightarrow> string" where
  "autoSave_description goal =
     ''Auto-save contribution ('' @ frequency_name (as_frequency (autoSave goal)) @ '')''"

definition sweep_entry :: "goal \<Rightarrow> sweep_status \<Rightarrow> string option \<Rightarrow> sweep_result" where
  "sweep_entry goal st err =
     \<lparr>r_goalId = g_id goal, r_goalName = g_name goal, r_amount = as_amount (autoSave goal),
      r_status = st, r_error = err\<rparr>"

text \<open>
  The \<open>for\<close> loop over the due goals with its \<open>try\<close>/\<open>catch\<close>: the documents are the
  ones \<open>findAutoSaveDue\<close> returned, the collection and the results are threaded.
\<close>

fun autoSave_loop ::
  "env \<Rightarrow> goal list \<Rightarrow> goal list \<Rightarrow> sweep_result list \<Rightarrow> goal list \<times> sweep_result list" where
  "autoSave_loop env [] s results = (s, results)"
| "autoSave_loop env (goal # rest) s results =
     (case addContribution env (as_amount (autoSave goal)) (autoSave_description goal) AutoSave goal of
        Inl e \<Rightarrow> autoSave_loop env rest s (results @ [sweep_entry goal Failed (Some (message e))])
      | Inr g1 \<Rightarrow>
          let g2 = g1\<lparr>autoSave := (autoSave g1)\<lparr>as_nextContribution := calculateNextContribution env g1\<rparr>\<rparr>
          in (case goal_save env g2 of
                Inl e \<Rightarrow> autoSave_loop env rest (persist_goal g1 s)
                           (results @ [sweep_entry g2 Failed (Some (message e))])
              | Inr g3 \<Rightarrow> autoSave_loop env rest (persist_goal g3 s)
                           (results @ [sweep_entry g3 Success None])))"

text \<open>
  The handler. The \<open>await\<close> of \<open>Goal.findAutoSaveDue()\<close> stands before the loop and
  outside its \<open>try\<close>: \<open>lookup\<close> is the error this storage call rejects with, if it
  rejects; the handler then throws it and no goal is touched.
\<close>

definition processAutoSave ::
  "error option \<Rightarrow> env \<Rightarrow> goal list \<Rightarrow> (error + sweep_result list) \<times> goal list" where
  "processAutoSave lookup env s =
     (case lookup of
        Some e \<Rightarrow> (Inl e, s)
      | None \<Rightarrow>
          (case autoSave_loop env (findAutoSaveDue env s) s [] of
             (s', results) \<Rightarrow> (Inr results, s')))"

text \<open>A request to the goal collection, and a sequence of them, each at its own time.\<close>

datatype goal_op =
    Contribute nat nat rat string
  | Update nat nat goal_update
  | Delete nat nat
  | AutoSaveSweep "error option"

fun apply_goal_op :: "env \<Rightarrow> goal_op \<Rightarrow> goal list \<Rightarrow> goal list" where
  "apply_goal_op env (Contribute uid gid amount description) s =
     snd (contributeToGoal env uid gid amount description s)"
| "apply_goal_op env (Update uid gid up) s = snd (updateGoal env uid gid up s)"
| "apply_goal_op env (Delete uid gid) s = snd (deleteGoal env uid gid s)"
| "apply_goal_op env (AutoSaveSweep lookup) s = snd (processAutoSave lookup env s)"

fun run_goal_ops :: "(env \<times> goal_op) list \<Rightarrow> goal list \<Rightarrow> goal list" where
  "run_goal_ops [] s = s"
| "run_goal_ops ((env, op) # ops) s = run_goal_ops ops (apply_goal_op env op s)"

text \<open>
  The clamp invariant of the specification: the current amount lies between 0 and the
  target, and the amounts of the contribution log add up to it.
\<close>

definition goal_inv :: "goal \<Rightarrow> bool" where
  "goal_inv g =
     (0 \<le> currentAmount g \<and> currentAmount g \<le> targetAmount g
      \<and> sum_list (map c_amount (contributions g)) = currentAmount g)"

text \<open>
  What one due goal's entry in the results of the sweep must be, in the words of the
  specification: failed with the error's message when contributing throws, success
  otherwise.
\<close>

definition sweep_outcome :: "env \<Rightarrow> goal \<Rightarrow> sweep_result" where
  "sweep_outcome env goal =
     (case addContribution env (as_amount (autoSave goal)) (autoSave_description goal) AutoSave goal of
        Inl e \<Rightarrow> sweep_entry goal Failed (Some (message e))
      | Inr g' \<Rightarrow> sweep_entry goal Success None)"

text \<open>
  What the collection must hold for a due goal after the sweep, in the words of the
  specification: the goal with the auto-save contribution applied and its next
  contribution rescheduled, or the stored goal as it was when contributing throws.
\<close>

definition sweep_stored :: "env \<Rightarrow> goal \<Rightarrow> goal" where
  "sweep_stored env goal =
     (case addContribution env (as_amount (autoSave goal)) (autoSave_description goal) AutoSave goal of
        Inl e \<Rightarrow> goal
      | Inr g1 \<Rightarrow> g1\<lparr>autoSave := (autoSave g1)\<lparr>as_nextContribution := calculateNextContribution env g1\<rparr>\<rparr>)"

text \<open>
  The relation between a stored goal and its later state that monotonic completion asks
  for: the same document, and once completed it stays completed with the same
  \<open>completedAt\<close>.
\<close>

definition keeps_completion :: "goal \<Rightarrow> goal \<Rightarrow> bool" where
  "keeps_completion g g' =
     (g_id g' = g_id g
      \<and> (if isCompleted g then isCompleted g' \<and> completedAt g' = completedAt g else True))"

section \<open>Expense model (src/models/Expense.js)\<close>

datatype expense_status = Pending | Completed | Cancelled

record expense =
  e_id :: nat
  e_user :: nat
  e_amount :: rat
  e_description :: string
  e_category :: string
  e_date :: int
  e_status :: expense_status

definition expense_categories :: "string list" where
  "expense_categories =
     [''food'', ''transport'', ''entertainment'', ''shopping'', ''bills'',
      ''healthcare'', ''education'', ''travel'', ''groceries'', ''business'',
      ''personal'', ''recharge'', ''investment'', ''other'']"

text \<open>\<open>String.prototype.toLowerCase\<close> and \<open>includes\<close>, on ASCII.\<close>

definition lower_char :: "char \<Rightarrow> char" where
  "lower_char c =
     (if (65::nat) \<le> of_char c \<and> of_char c \<le> (90::nat) then char_of (of_char c + (32::nat)) else c)"

definition toLowerCase :: "string \<Rightarrow> string" where
  "toLowerCase str = map lower_char str"

fun str_includes :: "string \<Rightarrow> string \<Rightarrow> bool" where
  "str_includes [] k = (k = [])"
| "str_includes (c # cs) k = (take (length k) (c # cs) = k \<or> str_includes cs k)"

definition indianCategories :: "(string \<times> string list) list" where
  "indianCategories =
     [(''food'', [''zomato'', ''swiggy'', ''restaurant'', ''cafe'', ''dhaba'', ''food'', ''dining'',
                  ''lunch'', ''dinner'', ''dominos'', ''pizzahut'', ''kfc'', ''mcdonalds'']),
      (''transport'', [''uber'', ''ola'', ''auto'', ''rickshaw'', ''taxi'', ''metro'', ''bus'', ''train'',
                       ''petrol'', ''diesel'', ''fuel'', ''parking'', ''toll'', ''rapido'']),
      (''groceries'', [''grocery'', ''vegetables'', ''fruits'', ''bigbasket'', ''grofers'', ''blinkit'',
                       ''dunzo'', ''supermarket'', ''kirana'', ''dmart'']),
      (''entertainment'', [''movie'', ''cinema'', ''pvr'', ''inox'', ''bookmyshow'', ''netflix'',
                           ''hotstar'', ''prime'', ''spotify'', ''game'', ''concert'']),
      (''bills'', [''electricity'', ''bijli'', ''water'', ''internet'', ''broadband'', ''jio'', ''airtel'',
                   ''vi'', ''bsnl'', ''gas'', ''cylinder'', ''rent'', ''emi'']),
      (''healthcare'', [''doctor'', ''hospital'', ''clinic'', ''pharmacy'', ''medical'', ''medicine'',
                        ''apollo'', ''fortis'', ''max'', ''dental'']),
      (''shopping'', [''amazon'', ''flipkart'', ''myntra'', ''ajio'', ''nykaa'', ''reliance'',
                      ''big bazaar'', ''clothes'', ''clothing'', ''mall'', ''shop'']),
      (''recharge'', [''recharge'', ''mobile'', ''phone'', ''paytm'', ''phonepe'', ''googlepay'',
                      ''prepaid'', ''postpaid'', ''dth'']),
      (''investment'', [''sip'', ''mutual fund'', ''stock'', ''share'', ''zerodha'', ''groww'', ''upstox'',
                        ''investment'', ''fd'', ''ppf'', ''nps'']),
      (''travel'', [''flight'', ''irctc'', ''hotel'', ''booking'', ''makemytrip'', ''goibibo'',
                    ''vacation'', ''holiday'', ''trip''])]"

definition inferCategory :: "expense \<Rightarrow> string" where
  "inferCategory e =
     (let desc = toLowerCase (e_description e) in
      case find (\<lambda>entry. list_ex (str_includes desc) (snd entry)) indianCategories of
        Some entry \<Rightarrow> fst entry
      | None \<Rightarrow> ''other'')"

text \<open>The \<open>pre('save')\<close> hook of the expense schema (tags are not modelled).\<close>

definition expense_pre_save :: "expense \<Rightarrow> expense" where
  "expense_pre_save e =
     (if e_category e = [] \<or> e_category e = ''other''
      then e\<lparr>e_category := inferCategory e\<rparr>
      else e)"

definition expense_schema_ok :: "expense \<Rightarrow> bool" where
  "expense_schema_ok e =
     (1 / 100 \<le> e_amount e
      \<and> e_description e \<noteq> [] \<and> length (e_description e) \<le> 200
      \<and> e_category e \<in> set expense_categories)"

definition expense_save :: "expense \<Rightarrow> error + expense" where
  "expense_save e =
     (if expense_schema_ok e then Inr (expense_pre_save e)
      else Inl (ValidationError ''Expense validation failed''))"

section \<open>Budget model (src/models/Budget.js)\<close>

text \<open>
  The percentage of a budget is a quotient whose divisor, the budget's amount, may be 0.
  A JavaScript division by 0 gives an infinity or \<open>NaN\<close>, and comparisons with \<open>NaN\<close>
  are false, so the result of the division is a value of its own type. (A negative zero
  is not modelled.)
\<close>

datatype jsnum = Num rat | PosInf | NegInf | NaN

definition js_div :: "rat \<Rightarrow> rat \<Rightarrow> jsnum" where
  "js_div x y =
     (if y \<noteq> 0 then Num (x / y)
      else if 0 < x then PosInf
      else if x < 0 then NegInf
      else NaN)"

text \<open>\<open>x * 100\<close>, \<open>Math.min(100, x)\<close>, \<open>x >= p\<close> and \<open>x < p\<close> for a finite \<open>p\<close>.\<close>

fun js_times100 :: "jsnum \<Rightarrow> jsnum" where
  "js_times100 (Num x) = Num (x * 100)"
| "js_times100 PosInf = PosInf"
| "js_times100 NegInf = NegInf"
| "js_times100 NaN = NaN"

fun js_min100 :: "jsnum \<Rightarrow> jsnum" where
  "js_min100 (Num x) = Num (min 100 x)"
| "js_min100 PosInf = Num 100"
| "js_min100 NegInf = NegInf"
| "js_min100 NaN = NaN"

fun js_ge :: "jsnum \<Rightarrow> rat \<Rightarrow> bool" where
  "js_ge (Num x) p = (p \<le> x)"
| "js_ge PosInf p = True"
| "js_ge NegInf p = False"
| "js_ge NaN p = False"

fun js_lt :: "jsnum \<Rightarrow> rat \<Rightarrow> bool" where
  "js_lt (Num x) p = (x < p)"
| "js_lt PosInf p = False"
| "js_lt NegInf p = True"
| "js_lt NaN p = False"

record threshold =
  percentage :: rat
  triggered :: bool
  triggeredAt :: "int option"

record budget =
  b_id :: nat
  b_user :: nat
  b_name :: string
  b_category :: string
  b_amount :: rat
  startDate :: int
  endDate :: int
  spent :: rat
  alerts_enabled :: bool
  thresholds :: "threshold list"
  defaultThresholds :: "rat list"
  b_isActive :: bool
  autoRenew :: bool

definition budget_categories :: "string list" where
  "budget_categories = expense_categories @ [''total'']"

text \<open>The virtual \<open>percentageUsed\<close>.\<close>

definition percentageUsed :: "budget \<Rightarrow> jsnum" where
  "percentageUsed b = js_min100 (js_times100 (js_div (spent b) (b_amount b)))"

text \<open>The \<open>pre('save')\<close> hook: the default thresholds are materialised when none are set.\<close>

definition budget_pre_save :: "budget \<Rightarrow> budget" where
  "budget_pre_save b =
     (if thresholds b = []
      then b\<lparr>thresholds :=
               map (\<lambda>p. \<lparr>percentage = p, triggered = False, triggeredAt = None\<rparr>)
                   (defaultThresholds b)\<rparr>
      else b)"

definition budget_schema_ok :: "budget \<Rightarrow> bool" where
  "budget_schema_ok b =
     (b_name b \<noteq> [] \<and> length (b_name b) \<le> 100
      \<and> b_category b \<in> set budget_categories
      \<and> 0 \<le> b_amount b
      \<and> 0 \<le> spent b
      \<and> list_all (\<lambda>t. 1 \<le> percentage t \<and> percentage t \<le> 100) (thresholds b))"

definition budget_save :: "budget \<Rightarrow> error + budget" where
  "budget_save b =
     (if budget_schema_ok b then Inr (budget_pre_save b)
      else Inl (ValidationError ''Budget validation failed''))"

definition updateSpent :: "env \<Rightarrow> rat \<Rightarrow> rat \<Rightarrow> budget \<Rightarrow> error + budget" where
  "updateSpent env newExpenseAmount oldExpenseAmount b =
     (let difference = newExpenseAmount - oldExpenseAmount;
          b1 = b\<lparr>spent := max 0 (spent b + difference)\<rparr>;
          currentPercentage = percentageUsed b1;
          b2 = b1\<lparr>thresholds :=
                  map (\<lambda>t. if \<not> triggered t \<and> js_ge currentPercentage (percentage t)
                           then t\<lparr>triggered := True, triggeredAt := Some (now env)\<rparr>
                           else t)
                      (thresholds b1)\<rparr>
      in budget_save b2)"

section \<open>Budget controller (budgetController.js, in src/controllers/incomeController.js)\<close>

text \<open>
  The \<open>$match\<close> stage of \<open>recalculateBudgetSpending\<close>: the expenses of the budget's
  user, in its category (any category for the budget \<open>total\<close>), dated within the window
  and completed.
\<close>

definition counts_toward :: "budget \<Rightarrow> expense \<Rightarrow> bool" where
  "counts_toward b e =
     (e_user e = b_user b
      \<and> (if b_category b = ''total'' then True else e_category e = b_category b)
      \<and> startDate b \<le> e_date e \<and> e_date e \<le> endDate b
      \<and> e_status e = Completed)"

definition recalculateBudgetSpending :: "expense list \<Rightarrow> budget \<Rightarrow> error + budget" where
  "recalculateBudgetSpending es b =
     (let total = sum_list (map e_amount (filter (counts_toward b) es));
          b1 = b\<lparr>spent := total\<rparr>;
          b2 = (if spent b1 < b_amount b1
                then b1\<lparr>thresholds :=
                        map (\<lambda>t. if js_lt (js_times100 (js_div (spent b1) (b_amount b1))) (percentage t)
                                 then t\<lparr>triggered := False, triggeredAt := None\<rparr>
                                 else t)
                            (thresholds b1)\<rparr>
                else b1)
      in budget_save b2)"

text \<open>\<open>DELETE /api/budgets/:id\<close>: \<open>deleteOne\<close> removes the document.\<close>

definition deleteBudget ::
  "nat \<Rightarrow> nat \<Rightarrow> budget list \<Rightarrow> (error + unit) \<times> budget list" where
  "deleteBudget uid bid bs =
     (case find (\<lambda>b. b_id b = bid \<and> b_user b = uid) bs of
        None \<Rightarrow> (Inl (ApiError 404 ''Budget not found''), bs)
      | Some budget \<Rightarrow> (Inr (), filter (\<lambda>x. b_id x \<noteq> b_id budget) bs))"

section \<open>Income model (src/models/Income.js)\<close>

datatype frequency = OneTime | Weekly | BiWeekly | Monthly | Quarterly | Yearly

record income =
  i_id :: nat
  i_user :: nat
  i_source :: string
  i_type :: string
  i_amount :: rat
  i_frequency :: frequency
  i_startDate :: int
  i_endDate :: "int option"
  i_isActive :: bool
  i_isRecurring :: bool

text \<open>
  The table \<open>multipliers\<close> of the virtual \<open>annualAmount\<close>. The virtual reads it as
  \<open>multipliers[this.frequency] || 0\<close>; the schema's enum leaves no other key, and
  \<open>0 || 0\<close> is 0.
\<close>

definition multipliers :: "frequency \<Rightarrow> rat" where
  "multipliers f =
     (case f of OneTime \<Rightarrow> 0 | Weekly \<Rightarrow> 52 | BiWeekly \<Rightarrow> 26
              | Monthly \<Rightarrow> 12 | Quarterly \<Rightarrow> 4 | Yearly \<Rightarrow> 1)"

definition annualAmount :: "income \<Rightarrow> rat" where
  "annualAmount i = (if \<not> i_isActive i then 0 else i_amount i * multipliers (i_frequency i))"

definition monthlyAmount :: "income \<Rightarrow> rat" where
  "monthlyAmount i = annualAmount i / 12"

text \<open>
  \<open>Income.getTotalAnnualIncome\<close>: the aggregation pipeline. \<open>$match\<close> keeps the user's
  active sources without an end date or with one that has not passed; \<open>$addFields\<close>
  computes \<open>annualAmount\<close> with a \<open>$switch\<close> on the frequency; \<open>$group\<close> gives one
  document when any source matched and none otherwise.
\<close>

record income_breakdown =
  bd_source :: string
  bd_type :: string
  bd_annualAmount :: rat
  bd_frequency :: frequency

record income_total =
  totalAnnual :: rat
  totalMonthly :: rat
  sourceCount :: nat
  breakdown :: "income_breakdown list"

definition rollup_match :: "env \<Rightarrow> nat \<Rightarrow> income \<Rightarrow> bool" where
  "rollup_match env uid i =
     (i_user i = uid \<and> i_isActive i
      \<and> (case i_endDate i of None \<Rightarrow> True | Some d \<Rightarrow> now env \<le> d))"

definition switch_annualAmount :: "income \<Rightarrow> rat" where
  "switch_annualAmount i =
     (case i_frequency i of
        Weekly \<Rightarrow> i_amount i * 52
      | BiWeekly \<Rightarrow> i_amount i * 26
      | Monthly \<Rightarrow> i_amount i * 12
      | Quarterly \<Rightarrow> i_amount i * 4
      | Yearly \<Rightarrow> i_amount i
      | OneTime \<Rightarrow> 0)"

definition getTotalAnnualIncome :: "env \<Rightarrow> nat \<Rightarrow> income list \<Rightarrow> income_total list" where
  "getTotalAnnualIncome env uid incomes =
     (let matched = filter (rollup_match env uid) incomes in
      if matched = [] then []
      else [\<lparr>totalAnnual = sum_list (map switch_annualAmount matched),
             totalMonthly = sum_list (map (\<lambda>i. switch_annualAmount i / 12) matched),
             sourceCount = length matched,
             breakdown = map (\<lambda>i. \<lparr>bd_source = i_source i, bd_type = i_type i,
                                      bd_annualAmount = switch_annualAmount i,
                                      bd_frequency = i_frequency i\<rparr>) matched\<rparr>])"

text \<open>\<open>GET /api/income/summary\<close> (\<open>getIncomeSummary\<close>): the group, or zeros when there is none.\<close>

definition getIncomeSummary :: "env \<Rightarrow> nat \<Rightarrow> income list \<Rightarrow> income_total" where
  "getIncomeSummary env uid incomes =
     (case getTotalAnnualIncome env uid incomes of
        [] \<Rightarrow> \<lparr>totalAnnual = 0, totalMonthly = 0, sourceCount = 0, breakdown = []\<rparr>
      | summary # rest \<Rightarrow> summary)"

section \<open>User model (src/models/User.js): the monthly limit\<close>

record user =
  u_id :: nat
  subscription :: string
  subscriptionExpiry :: "int option"
  stats_totalExpenses :: int
  stats_monthlyLimit :: int

definition isPremium :: "env \<Rightarrow> user \<Rightarrow> bool" where
  "isPremium env u =
     (subscription u = ''premium''
      \<and> (case subscriptionExpiry u of None \<Rightarrow> True | Some d \<Rightarrow> now env < d))"

definition canAddExpense :: "env \<Rightarrow> user \<Rightarrow> bool" where
  "canAddExpense env u =
     (if isPremium env u then True else stats_totalExpenses u < stats_monthlyLimit u)"

section \<open>Expense controller (src/controllers/expenseController.js)\<close>

text \<open>The collections the expense handlers read and write.\<close>

record db =
  users :: "user list"
  expenses :: "expense list"
  budgets :: "budget list"

definition persist_expense :: "expense \<Rightarrow> expense list \<Rightarrow> expense list" where
  "persist_expense e es = map (\<lambda>x. if e_id x = e_id e then e else x) es"

definition persist_budget :: "budget \<Rightarrow> budget list \<Rightarrow> budget list" where
  "persist_budget b bs = map (\<lambda>x. if b_id x = b_id b then b else x) bs"

text \<open>
  The four storage calls on budgets that \<open>updateBudgetSpending\<close> awaits inside its
  \<open>try\<close>. Any of them may reject; \<open>fails\<close> says which call throws and what. With
  \<open>no_faults\<close> the storage never rejects.
\<close>

datatype budget_call =
    FindCategoryBudget
  | UpdateCategoryBudget
  | FindTotalBudget
  | UpdateTotalBudget

definition no_faults :: "budget_call \<Rightarrow> error option" where
  "no_faults c = None"

text \<open>The filter of both \<open>Budget.findOne\<close> queries: the user's active budget of a category
  whose window holds the present time.\<close>

definition current_budget :: "env \<Rightarrow> nat \<Rightarrow> string \<Rightarrow> budget \<Rightarrow> bool" where
  "current_budget env uid category b =
     (b_user b = uid \<and> b_category b = category \<and> b_isActive b
      \<and> startDate b \<le> now env \<and> now env \<le> endDate b)"

text \<open>
  One \<open>findOne\<close> followed by \<open>updateSpent(amount, 0)\<close> on the document found, as the
  body of the \<open>try\<close> does twice. The result is the error thrown, if any, and the
  collection as the step leaves it.
\<close>

definition find_and_updateSpent ::
  "(budget_call \<Rightarrow> error option) \<Rightarrow> budget_call \<Rightarrow> budget_call \<Rightarrow> env \<Rightarrow> nat \<Rightarrow> string \<Rightarrow> rat
     \<Rightarrow> budget list \<Rightarrow> error option \<times> budget list" where
  "find_and_updateSpent fails findCall updateCall env uid category amount bs =
     (case fails findCall of
        Some e \<Rightarrow> (Some e, bs)
      | None \<Rightarrow>
          (case find (current_budget env uid category) bs of
             None \<Rightarrow> (None, bs)
           | Some budget \<Rightarrow>
               (case fails updateCall of
                  Some e \<Rightarrow> (Some e, bs)
                | None \<Rightarrow>
                    (case updateSpent env amount 0 budget of
                       Inl e \<Rightarrow> (Some e, bs)
                     | Inr budget' \<Rightarrow> (None, persist_budget budget' bs)))))"

text \<open>
  \<open>updateBudgetSpending\<close>: the category budget, then the budget \<open>total\<close>; the \<open>catch\<close>
  logs the error and returns, so the helper never throws.
\<close>

definition updateBudgetSpending ::
  "(budget_call \<Rightarrow> error option) \<Rightarrow> env \<Rightarrow> nat \<Rightarrow> string \<Rightarrow> rat \<Rightarrow> budget list \<Rightarrow> budget list" where
  "updateBudgetSpending fails env uid category amount bs =
     (case find_and_updateSpent fails FindCategoryBudget UpdateCategoryBudget env uid category amount bs of
        (Some e, bs1) \<Rightarrow> bs1
      | (None, bs1) \<Rightarrow>
          (case find_and_updateSpent fails FindTotalBudget UpdateTotalBudget env uid ''total'' amount bs1 of
             (Some e, bs2) \<Rightarrow> bs2
           | (None, bs2) \<Rightarrow> bs2))"

text \<open>
  The body of \<open>POST /api/expenses\<close>: an absent amount is the value 0 and an absent text
  the empty string (all falsy). The recurring-pattern detection only sets
  \<open>metadata.recurringDetected\<close>, which is not modelled. A user that is not found makes
  \<open>user.canAddExpense()\<close> throw a \<open>TypeError\<close>.
\<close>

record expense_request =
  xr_amount :: rat
  xr_description :: string
  xr_category :: string
  xr_date :: "int option"

definition createExpense ::
  "(budget_call \<Rightarrow> error option) \<Rightarrow> env \<Rightarrow> nat \<Rightarrow> nat \<Rightarrow> expense_request \<Rightarrow> db
     \<Rightarrow> (error + expense) \<times> db" where
  "createExpense fails env uid newId rq d =
     (if xr_amount rq = 0 \<or> xr_description rq = [] \<or> xr_category rq = []
      then (Inl (ApiError 400 ''Amount, description, and category are required''), d)
      else
        (case find (\<lambda>u. u_id u = uid) (users d) of
           None \<Rightarrow> (Inl (Error ''TypeError''), d)
         | Some usr \<Rightarrow>
             if \<not> canAddExpense env usr
             then (Inl (ApiError 403
                     ''Monthly expense limit reached. Upgrade to premium for unlimited expenses.''), d)
             else
               (case expense_save
                       \<lparr>e_id = newId, e_user = uid, e_amount = xr_amount rq,
                         e_description = trim (xr_description rq),
                         e_category = xr_category rq,
                         e_date = (case xr_date rq of None \<Rightarrow> now env | Some t \<Rightarrow> t),
                         e_status = Completed\<rparr> of
                  Inl e \<Rightarrow> (Inl e, d)
                | Inr expense \<Rightarrow>
                    let d1 = d\<lparr>expenses := expenses d @ [expense]\<rparr>;
                        d2 = d1\<lparr>users := map (\<lambda>u. if u_id u = uid
                                                   then u\<lparr>stats_totalExpenses := stats_totalExpenses u + 1\<rparr>
                                                   else u) (users d1)\<rparr>;
                        d3 = d2\<lparr>budgets := updateBudgetSpending fails env uid
                                               (e_category expense) (e_amount expense) (budgets d2)\<rparr>
                    in (case expense_save expense of
                          Inl e \<Rightarrow> (Inl e, d3)
                        | Inr expense' \<Rightarrow>
                            (Inr expense', d3\<lparr>expenses := persist_expense expense' (expenses d3)\<rparr>)))))"

text \<open>
  \<open>PUT /api/expenses/:id\<close>: every key of the body that is defined is assigned to the
  expense (the keys of the model are the ones below).
\<close>

record expense_update =
  xu_amount :: "rat option"
  xu_description :: "string option"
  xu_category :: "string option"
  xu_date :: "int option"
  xu_status :: "expense_status option"

definition assign_expense_fields :: "expense_update \<Rightarrow> expense \<Rightarrow> expense" where
  "assign_expense_fields up e =
     (let e1 = (case xu_amount up of None \<Rightarrow> e | Some a \<Rightarrow> e\<lparr>e_amount := a\<rparr>);
          e2 = (case xu_description up of None \<Rightarrow> e1 | Some t \<Rightarrow> e1\<lparr>e_description := trim t\<rparr>);
          e3 = (case xu_category up of None \<Rightarrow> e2 | Some c \<Rightarrow> e2\<lparr>e_category := c\<rparr>);
          e4 = (case xu_date up of None \<Rightarrow> e3 | Some t \<Rightarrow> e3\<lparr>e_date := t\<rparr>)
      in (case xu_status up of None \<Rightarrow> e4 | Some st \<Rightarrow> e4\<lparr>e_status := st\<rparr>))"

definition updateExpense ::
  "(budget_call \<Rightarrow> error option) \<Rightarrow> env \<Rightarrow> nat \<Rightarrow> nat \<Rightarrow> expense_update \<Rightarrow> db
     \<Rightarrow> (error + expense) \<times> db" where
  "updateExpense fails env uid eid up d =
     (case find (\<lambda>e. e_id e = eid \<and> e_user e = uid) (expenses d) of
        None \<Rightarrow> (Inl (ApiError 404 ''Expense not found''), d)
      | Some expense \<Rightarrow>
          let oldAmount = e_amount expense;
              oldCategory = e_category expense
          in (case expense_save (assign_expense_fields up expense) of
                Inl e \<Rightarrow> (Inl e, d)
              | Inr expense' \<Rightarrow>
                  let d1 = d\<lparr>expenses := persist_expense expense' (expenses d)\<rparr> in
                  if oldAmount \<noteq> e_amount expense' \<or> oldCategory \<noteq> e_category expense'
                  then
                    let bs1 = updateBudgetSpending fails env uid oldCategory (- oldAmount) (budgets d1);
                        bs2 = updateBudgetSpending fails env uid
                                (e_category expense') (e_amount expense') bs1
                    in (Inr expense', d1\<lparr>budgets := bs2\<rparr>)
                  else (Inr expense', d1)))"

definition deleteExpense ::
  "(budget_call \<Rightarrow> error option) \<Rightarrow> env \<Rightarrow> nat \<Rightarrow> nat \<Rightarrow> db \<Rightarrow> (error + unit) \<times> db" where
  "deleteExpense fails env uid eid d =
     (case find (\<lambda>e. e_id e = eid \<and> e_user e = uid) (expenses d) of
        None \<Rightarrow> (Inl (ApiError 404 ''Expense not found''), d)
      | Some expense \<Rightarrow>
          let d1 = d\<lparr>budgets := updateBudgetSpending fails env uid
                                   (e_category expense) (- e_amount expense) (budgets d)\<rparr>;
              d2 = d1\<lparr>users := map (\<lambda>u. if u_id u = uid
                                         then u\<lparr>stats_totalExpenses := stats_totalExpenses u - 1\<rparr>
                                         else u) (users d1)\<rparr>
          in (Inr (), d2\<lparr>expenses := filter (\<lambda>x. e_id x \<noteq> e_id expense) (expenses d2)\<rparr>))"

section \<open>Sample data\<close>

text \<open>
  A sample clock for the concrete runs below: a day has 86400000 milliseconds and the
  sample calendar takes a month as 30 days.
\<close>

definition sample_env :: "int \<Rightarrow> env" where
  "sample_env t =
     \<lparr>now = t,
      plusDays = (\<lambda>d n. d + int n * 86400000),
      plusMonths = (\<lambda>d n. d + int n * 30 * 86400000)\<rparr>"

definition sample_goal :: "nat \<Rightarrow> rat \<Rightarrow> rat \<Rightarrow> contribution list \<Rightarrow> goal" where
  "sample_goal gid target current entries =
     \<lparr>g_id = gid, g_user = 7, g_name = ''Laptop'', targetAmount = target,
      currentAmount = current, g_category = ''gadget'', deadline = 900000,
      isCompleted = False, completedAt = None,
      autoSave = default_autosave,
      contributions = entries, g_isActive = True\<rparr>"

definition sample_entry :: "rat \<Rightarrow> contribution" where
  "sample_entry a = \<lparr>c_amount = a, c_date = 10, c_description = ''first'', c_source = Manual\<rparr>"

definition sample_request :: "rat \<Rightarrow> rat \<Rightarrow> goal_request" where
  "sample_request target current =
     \<lparr>rq_name = ''Laptop'', rq_targetAmount = target, rq_currentAmount = current,
      rq_category = ''gadget'', rq_deadline = Some 900000, rq_autoSave = None\<rparr>"

text \<open>A goal whose auto-save of the given amount is due since time 0.\<close>

definition sample_due_goal :: "nat \<Rightarrow> rat \<Rightarrow> goal" where
  "sample_due_goal gid a =
     (sample_goal gid 1000 0 [])\<lparr>autoSave :=
        \<lparr>as_enabled = True, as_amount = a, as_frequency = AsWeekly, as_nextContribution = Some 0\<rparr>\<rparr>"

text \<open>A goal that was completed at time 5.\<close>

definition sample_completed_goal :: goal where
  "sample_completed_goal =
     (sample_goal 1 1000 1000 [sample_entry 1000])\<lparr>isCompleted := True, completedAt := Some 5\<rparr>"

text \<open>
  A budget for the category food of user 7 over the window from 0 to 1000, and an
  expense of that user in that category and window.
\<close>

definition sample_threshold :: "rat \<Rightarrow> bool \<Rightarrow> threshold" where
  "sample_threshold p t =
     \<lparr>percentage = p, triggered = t, triggeredAt = (if t then Some 5 else None)\<rparr>"

definition sample_budget :: "rat \<Rightarrow> rat \<Rightarrow> threshold list \<Rightarrow> budget" where
  "sample_budget limit sp ths =
     \<lparr>b_id = 1, b_user = 7, b_name = ''Food'', b_category = ''food'', b_amount = limit,
      startDate = 0, endDate = 1000, spent = sp, alerts_enabled = True, thresholds = ths,
      defaultThresholds = [50, 75, 90, 100], b_isActive = True, autoRenew = True\<rparr>"

definition sample_expense :: "nat \<Rightarrow> rat \<Rightarrow> expense_status \<Rightarrow> expense" where
  "sample_expense i a st =
     \<lparr>e_id = i, e_user = 7, e_amount = a, e_description = ''lunch'', e_category = ''food'',
      e_date = 20, e_status = st\<rparr>"

text \<open>An income source of user 7.\<close>

definition sample_income :: "rat \<Rightarrow> frequency \<Rightarrow> bool \<Rightarrow> int option \<Rightarrow> income" where
  "sample_income a f active ends =
     \<lparr>i_id = 1, i_user = 7, i_source = ''Job'', i_type = ''salary'', i_amount = a,
      i_frequency = f, i_startDate = 0, i_endDate = ends, i_isActive = active,
      i_isRecurring = True\<rparr>"

text \<open>
  User 7 on the free tier, and a database that holds this user, no expense and one
  budget for food with a limit of 1000, nothing spent, over the window from 0 to 1000.
\<close>

definition sample_user :: user where
  "sample_user =
     \<lparr>u_id = 7, subscription = ''free'', subscriptionExpiry = None,
      stats_totalExpenses = 0, stats_monthlyLimit = 100\<rparr>"

definition sample_db :: db where
  "sample_db =
     \<lparr>users = [sample_user], expenses = [],
      budgets = [sample_budget 1000 0
                   [sample_threshold 50 False, sample_threshold 90 False, sample_threshold 100 False]]\<rparr>"

definition lunch_request :: expense_request where
  "lunch_request =
     \<lparr>xr_amount = 100, xr_description = ''lunch'', xr_category = ''food'', xr_date = Some 20\<rparr>"

definition cancel_update :: expense_update where
  "cancel_update =
     \<lparr>xu_amount = None, xu_description = None, xu_category = None, xu_date = None,
      xu_status = Some Cancelled\<rparr>"

text \<open>A storage whose every budget call rejects.\<close>

definition storage_down :: "budget_call \<Rightarrow> error option" where
  "storage_down c = Some (Error ''connection lost'')"

section \<open>Properties of the goal tracker\<close>

lemma goal_pre_save_amounts:
  "currentAmount (goal_pre_save env g) = currentAmount g
   \<and> targetAmount (goal_pre_save env g) = targetAmount g
   \<and> contributions (goal_pre_save env g) = contributions g"
  by (simp add: goal_pre_save_def Let_def)

lemma goal_pre_save_completes:
  "targetAmount g \<le> currentAmount g \<Longrightarrow> isCompleted (goal_pre_save env g)"
  by (simp add: goal_pre_save_def Let_def)

text \<open>
  C3. A contribution larger than what is left to the target is clamped by
  \<open>addContribution\<close>: on a stored goal (valid for its schema, its deadline ahead) whose
  current amount does not exceed its target,
  the call succeeds, the entry appended to the contribution log records the remaining
  amount (not the requested one), the current amount becomes the target amount and the
  goal is completed.
\<close>

theorem addContribution_clamps:
  assumes "goal_schema_ok g"
    and "deadline_ok env g"
    and "currentAmount g \<le> targetAmount g"
    and "targetAmount g - currentAmount g < amount"
  shows "\<exists>g'. addContribution env amount description source g = Inr g'
           \<and> currentAmount g' = targetAmount g
           \<and> contributions g' = contributions g @
                [\<lparr>c_amount = targetAmount g - currentAmount g, c_date = now env,
                  c_description = description, c_source = source\<rparr>]
           \<and> isCompleted g'"
proof -
  let ?g2 = "g\<lparr>currentAmount := targetAmount g,
               contributions := contributions g @
                [\<lparr>c_amount = targetAmount g - currentAmount g, c_date = now env,
                  c_description = description, c_source = source\<rparr>]\<rparr>"
  from assms have pos: "0 < amount" by simp
  from assms have clamp: "min (currentAmount g + amount) (targetAmount g) = targetAmount g"
    by simp
  from assms have ok: "goal_schema_ok ?g2 \<and> deadline_ok env ?g2"
    by (simp add: goal_schema_ok_def deadline_ok_def)
  have run: "addContribution env amount description source g = Inr (goal_pre_save env ?g2)"
    using pos clamp ok by (simp add: addContribution_def goal_save_def Let_def)
  show ?thesis
    unfolding run using goal_pre_save_amounts [of env ?g2] goal_pre_save_completes [of ?g2 env]
    by simp
qed

theorem addContribution_clamps_witness:
  "goal_schema_ok (sample_goal 1 1000 700 [sample_entry 700])
   \<and> deadline_ok (sample_env 20) (sample_goal 1 1000 700 [sample_entry 700])
   \<and> (\<exists>g'. addContribution (sample_env 20) 500 ''second'' Manual
              (sample_goal 1 1000 700 [sample_entry 700]) = Inr g'
          \<and> currentAmount g' = 1000
          \<and> map c_amount (contributions g') = [700, 300]
          \<and> isCompleted g')"
proof -
  let ?g = "sample_goal 1 1000 700 [sample_entry 700]"
  have ok: "goal_schema_ok ?g"
    by (simp add: goal_schema_ok_def sample_goal_def sample_entry_def default_autosave_def goal_categories_def)
  have dl: "deadline_ok (sample_env 20) ?g"
    by (simp add: deadline_ok_def sample_goal_def sample_env_def)
  have le: "currentAmount ?g \<le> targetAmount ?g"
    by (simp add: sample_goal_def)
  have gt: "targetAmount ?g - currentAmount ?g < 500"
    by (simp add: sample_goal_def)
  from addContribution_clamps [OF ok dl le gt, of "''second''" Manual]
  obtain g' where "addContribution (sample_env 20) 500 ''second'' Manual ?g = Inr g'"
    and "currentAmount g' = targetAmount ?g"
    and "contributions g' = contributions ?g @
           [\<lparr>c_amount = targetAmount ?g - currentAmount ?g, c_date = now (sample_env 20),
             c_description = ''second'', c_source = Manual\<rparr>]"
    and "isCompleted g'"
    by blast
  then have "addContribution (sample_env 20) 500 ''second'' Manual ?g = Inr g'
      \<and> currentAmount g' = 1000
      \<and> map c_amount (contributions g') = [700, 300]
      \<and> isCompleted g'"
    by (simp add: sample_goal_def sample_entry_def)
  then have "\<exists>g'. addContribution (sample_env 20) 500 ''second'' Manual ?g = Inr g'
      \<and> currentAmount g' = 1000
      \<and> map c_amount (contributions g') = [700, 300]
      \<and> isCompleted g'"
    by (rule exI)
  with ok dl show ?thesis by (intro conjI)
qed

subsection \<open>The clamp invariant\<close>

text \<open>
  \<open>addContribution\<close> keeps the clamp invariant of a goal: the defect below is in
  \<open>createGoal\<close> alone.
\<close>

lemma addContribution_keeps_goal_inv:
  assumes "goal_inv g" and "addContribution env amount description source g = Inr g'"
  shows "goal_inv g'"
  using assms
  by (auto simp: goal_inv_def addContribution_def goal_save_def Let_def goal_pre_save_def
      split: if_splits)

text \<open>
  C2. The clamp invariant fails after goal creation with a non-zero initial amount:
  \<open>createGoal\<close> stores the goal with \<open>currentAmount\<close> set to the initial amount and then
  calls \<open>addContribution\<close> with the same amount, which adds it a second time. Creating a
  goal with target 1000 and initial amount 300 answers with a goal whose current amount
  is 600 while its contribution log sums to 300.
\<close>

theorem createGoal_counts_initial_amount_twice:
  "(case createGoal (sample_env 20) 7 1 (sample_request 1000 300) [] of
      (Inr g, s) \<Rightarrow>
         s = [g] \<and> currentAmount g = 600
         \<and> sum_list (map c_amount (contributions g)) = 300
         \<and> \<not> goal_inv g
    | (Inl e, s) \<Rightarrow> False)"
  by (simp add: createGoal_def sample_request_def sample_env_def Goal_create_def goal_save_def
      goal_schema_ok_def deadline_ok_def goal_categories_def goal_pre_save_def trim_def
      is_space_def addContribution_def persist_goal_def default_autosave_def goal_inv_def Let_def)

text \<open>
  With an initial amount above the target (1500 for a target of 1000) the goal is stored
  with \<open>currentAmount\<close> 1500, beyond its target, and the request then fails: the log
  entry of the follow-up contribution would be negative.
\<close>

lemma createGoal_initial_amount_above_target:
  "(case createGoal (sample_env 20) 7 1 (sample_request 1000 1500) [] of
      (Inl e, s) \<Rightarrow> e = ValidationError ''Goal validation failed''
         \<and> map currentAmount s = [1500] \<and> map targetAmount s = [1000]
    | (Inr g, s) \<Rightarrow> False)"
  by (simp add: createGoal_def sample_request_def sample_env_def Goal_create_def goal_save_def
      goal_schema_ok_def deadline_ok_def goal_categories_def goal_pre_save_def trim_def
      is_space_def addContribution_def persist_goal_def default_autosave_def Let_def)

text \<open>
  The controller in front of the clamp: \<open>contributeToGoal\<close> rejects an amount above
  the remaining target with a 400, so the clamp of C3 is reached by \<open>createGoal\<close> and
  by the auto-save sweep only.
\<close>

lemma contributeToGoal_rejects_excess:
  "contributeToGoal (sample_env 20) 7 1 500 ''second'' [sample_goal 1 1000 700 [sample_entry 700]]
   = (Inl (ApiError 400 ''Contribution amount exceeds remaining target by ''),
      [sample_goal 1 1000 700 [sample_entry 700]])"
  by (simp add: contributeToGoal_def sample_goal_def Let_def)

subsection \<open>The auto-save sweep\<close>

lemma goal_pre_save_fixed:
  "g_id (goal_pre_save env g) = g_id g
   \<and> g_name (goal_pre_save env g) = g_name g
   \<and> as_amount (autoSave (goal_pre_save env g)) = as_amount (autoSave g)
   \<and> goal_schema_ok (goal_pre_save env g) = goal_schema_ok g
   \<and> deadline_ok env (goal_pre_save env g) = deadline_ok env g"
  by (simp add: goal_pre_save_def goal_schema_ok_def deadline_ok_def Let_def)

lemma goal_save_fixed:
  assumes "goal_save env g = Inr g'"
  shows "g_id g' = g_id g \<and> g_name g' = g_name g
         \<and> as_amount (autoSave g') = as_amount (autoSave g)
         \<and> goal_schema_ok g' \<and> deadline_ok env g'"
  using assms goal_pre_save_fixed [of env g]
  by (auto simp: goal_save_def split: if_splits)

lemma addContribution_fixed:
  assumes "addContribution env amount description source g = Inr g'"
  shows "g_id g' = g_id g \<and> g_name g' = g_name g
         \<and> as_amount (autoSave g') = as_amount (autoSave g)
         \<and> goal_schema_ok g' \<and> deadline_ok env g'"
proof (cases "amount \<le> 0")
  case True
  with assms show ?thesis by (simp add: addContribution_def)
next
  case False
  with assms goal_save_fixed show ?thesis
    by (fastforce simp: addContribution_def Let_def)
qed

text \<open>Saving the new date of the next contribution cannot fail validation.\<close>

lemma reschedule_saves:
  assumes "goal_schema_ok g1" and "deadline_ok env g1"
  shows "goal_save env (g1\<lparr>autoSave := (autoSave g1)\<lparr>as_nextContribution := n\<rparr>\<rparr>)
         = Inr (goal_pre_save env (g1\<lparr>autoSave := (autoSave g1)\<lparr>as_nextContribution := n\<rparr>\<rparr>))"
  using assms by (simp add: goal_save_def goal_schema_ok_def deadline_ok_def)

lemma sweep_entry_cong:
  "g_id a = g_id b \<Longrightarrow> g_name a = g_name b \<Longrightarrow> as_amount (autoSave a) = as_amount (autoSave b)
   \<Longrightarrow> sweep_entry a st err = sweep_entry b st err"
  by (simp add: sweep_entry_def)

lemma autoSave_loop_results:
  "snd (autoSave_loop env due s results) = results @ map (sweep_outcome env) due"
proof (induction due arbitrary: s results)
  case Nil
  then show ?case by simp
next
  case (Cons goal rest)
  show ?case
  proof (cases "addContribution env (as_amount (autoSave goal)) (autoSave_description goal) AutoSave goal")
    case (Inl e)
    then show ?thesis by (simp add: Cons.IH sweep_outcome_def)
  next
    case (Inr g1)
    let ?g2 = "g1\<lparr>autoSave := (autoSave g1)\<lparr>as_nextContribution := calculateNextContribution env g1\<rparr>\<rparr>"
    from addContribution_fixed [OF Inr]
    have fx: "g_id g1 = g_id goal" "g_name g1 = g_name goal"
      "as_amount (autoSave g1) = as_amount (autoSave goal)" "goal_schema_ok g1"
      "deadline_ok env g1"
      by simp_all
    have sv: "goal_save env ?g2 = Inr (goal_pre_save env ?g2)"
      using fx(4) fx(5) by (rule reschedule_saves)
    have "sweep_entry (goal_pre_save env ?g2) Success None = sweep_entry goal Success None"
      using fx goal_pre_save_fixed [of env ?g2] by (intro sweep_entry_cong) simp_all
    with Inr sv show ?thesis
      by (simp add: Cons.IH sweep_outcome_def Let_def)
  qed
qed

lemma processAutoSave_results:
  "fst (processAutoSave None env s) = Inr (map (sweep_outcome env) (findAutoSaveDue env s))"
  using autoSave_loop_results [of env "findAutoSaveDue env s" s "[]"]
  by (simp add: processAutoSave_def case_prod_beta)

lemma sweep_outcome_fields:
  "r_goalId (sweep_outcome env goal) = g_id goal
   \<and> (case addContribution env (as_amount (autoSave goal)) (autoSave_description goal) AutoSave goal of
         Inl e \<Rightarrow> r_status (sweep_outcome env goal) = Failed
                  \<and> r_error (sweep_outcome env goal) = Some (message e)
       | Inr g' \<Rightarrow> r_status (sweep_outcome env goal) = Success
                  \<and> r_error (sweep_outcome env goal) = None)"
  by (simp add: sweep_outcome_def sweep_entry_def split: sum.splits)

text \<open>
  What a successful contribution leaves in the document: the clamped amount, one more
  log entry, and a pre-save hook that has already run.
\<close>

lemma addContribution_result:
  assumes "addContribution env amount description source g = Inr g'"
  shows "currentAmount g' = min (currentAmount g + amount) (targetAmount g)
         \<and> contributions g' = contributions g @
              [\<lparr>c_amount = min (currentAmount g + amount) (targetAmount g) - currentAmount g,
                c_date = now env, c_description = description, c_source = source\<rparr>]
         \<and> autoSave g' = autoSave (goal_pre_save env g)
         \<and> (targetAmount g' \<le> currentAmount g' \<longrightarrow> isCompleted g')
         \<and> (as_enabled (autoSave g') \<longrightarrow> as_nextContribution (autoSave g') \<noteq> None)"
proof (cases "amount \<le> 0")
  case True
  with assms show ?thesis by (simp add: addContribution_def)
next
  case False
  with assms show ?thesis
    by (auto simp: addContribution_def goal_save_def goal_pre_save_def
        calculateNextContribution_def Let_def split: if_splits)
qed

text \<open>The second save of the loop changes nothing more: the hook has nothing left to do.\<close>

lemma reschedule_pre_save:
  assumes "targetAmount g1 \<le> currentAmount g1 \<longrightarrow> isCompleted g1"
  shows "goal_pre_save env
           (g1\<lparr>autoSave := (autoSave g1)\<lparr>as_nextContribution := calculateNextContribution env g1\<rparr>\<rparr>)
         = g1\<lparr>autoSave := (autoSave g1)\<lparr>as_nextContribution := calculateNextContribution env g1\<rparr>\<rparr>"
  using assms by (auto simp: goal_pre_save_def calculateNextContribution_def Let_def)

lemma sweep_stored_id: "g_id (sweep_stored env goal) = g_id goal"
  by (auto simp: sweep_stored_def split: sum.splits dest: addContribution_fixed)

lemma find_absent_id:
  assumes "k \<notin> g_id ` set xs"
  shows "find (\<lambda>d. g_id d = k) xs = None"
  using assms by (induction xs) auto

text \<open>
  The collection after the loop: every stored goal whose id is the id of a due goal holds
  what the sweep stores for that due goal (itself when contributing threw); every other
  goal is as it was.
\<close>

lemma autoSave_loop_store:
  assumes "distinct (map g_id due)"
  shows "fst (autoSave_loop env due t results)
         = map (\<lambda>x. case find (\<lambda>d. g_id d = g_id x) due of
                      None \<Rightarrow> x
                    | Some d \<Rightarrow>
                        (case addContribution env (as_amount (autoSave d)) (autoSave_description d)
                                AutoSave d of
                           Inl e \<Rightarrow> x
                         | Inr g1 \<Rightarrow> sweep_stored env d)) t"
  using assms
proof (induction due arbitrary: t results)
  case Nil
  then show ?case by (simp add: map_idI)
next
  case (Cons goal rest)
  from Cons.prems have fresh: "g_id goal \<notin> g_id ` set rest" and dist: "distinct (map g_id rest)"
    by simp_all
  have skip: "find (\<lambda>d. g_id d = g_id goal) rest = None"
    using fresh by (rule find_absent_id)
  show ?case
  proof (cases "addContribution env (as_amount (autoSave goal)) (autoSave_description goal) AutoSave goal")
    case (Inl e)
    have same: "(case find (\<lambda>d. g_id d = g_id x) rest of
                      None \<Rightarrow> x
                    | Some d \<Rightarrow>
                        (case addContribution env (as_amount (autoSave d)) (autoSave_description d)
                                AutoSave d of
                           Inl e \<Rightarrow> x
                         | Inr g1 \<Rightarrow> sweep_stored env d))
            = (case find (\<lambda>d. g_id d = g_id x) (goal # rest) of
                      None \<Rightarrow> x
                    | Some d \<Rightarrow>
                        (case addContribution env (as_amount (autoSave d)) (autoSave_description d)
                                AutoSave d of
                           Inl e \<Rightarrow> x
                         | Inr g1 \<Rightarrow> sweep_stored env d))" for x
    proof (cases "g_id x = g_id goal")
      case True
      with skip Inl show ?thesis by simp
    next
      case False
      then show ?thesis by (simp add: eq_commute [of "g_id goal"])
    qed
    from Inl show ?thesis
      by (simp add: Cons.IH [OF dist] same)
  next
    case (Inr g1)
    let ?g2 = "g1\<lparr>autoSave := (autoSave g1)\<lparr>as_nextContribution := calculateNextContribution env g1\<rparr>\<rparr>"
    from addContribution_fixed [OF Inr]
    have fx: "g_id g1 = g_id goal" "goal_schema_ok g1" "deadline_ok env g1" by simp_all
    from addContribution_result [OF Inr]
    have reached: "targetAmount g1 \<le> currentAmount g1 \<longrightarrow> isCompleted g1" by simp
    have sv: "goal_save env ?g2 = Inr ?g2"
      using reschedule_saves [OF fx(2) fx(3), of "calculateNextContribution env g1"]
        reschedule_pre_save [OF reached, of env]
      by simp
    have st: "sweep_stored env goal = ?g2"
      using Inr by (simp add: sweep_stored_def)
    have id2: "g_id ?g2 = g_id goal" using fx(1) by simp
    have "fst (autoSave_loop env (goal # rest) t results)
          = fst (autoSave_loop env rest (persist_goal ?g2 t)
                  (results @ [sweep_entry ?g2 Success None]))"
      using Inr sv by (simp add: Let_def)
    also have "\<dots> = map (\<lambda>x. case find (\<lambda>d. g_id d = g_id x) rest of
                      None \<Rightarrow> x
                    | Some d \<Rightarrow>
                        (case addContribution env (as_amount (autoSave d)) (autoSave_description d)
                                AutoSave d of
                           Inl e \<Rightarrow> x
                         | Inr g1 \<Rightarrow> sweep_stored env d)) (persist_goal ?g2 t)"
      by (rule Cons.IH [OF dist])
    also have "\<dots> = map (\<lambda>x. case find (\<lambda>d. g_id d = g_id x) (goal # rest) of
                      None \<Rightarrow> x
                    | Some d \<Rightarrow>
                        (case addContribution env (as_amount (autoSave d)) (autoSave_description d)
                                AutoSave d of
                           Inl e \<Rightarrow> x
                         | Inr g1 \<Rightarrow> sweep_stored env d)) t"
      unfolding persist_goal_def map_map
    proof (rule map_cong [OF refl])
      fix x
      assume "x \<in> set t"
      show "((\<lambda>x. case find (\<lambda>d. g_id d = g_id x) rest of
                      None \<Rightarrow> x
                    | Some d \<Rightarrow>
                        (case addContribution env (as_amount (autoSave d)) (autoSave_description d)
                                AutoSave d of
                           Inl e \<Rightarrow> x
                         | Inr g1 \<Rightarrow> sweep_stored env d))
              \<circ> (\<lambda>x. if g_id x = g_id ?g2 then ?g2 else x)) x
            = (case find (\<lambda>d. g_id d = g_id x) (goal # rest) of
                      None \<Rightarrow> x
                    | Some d \<Rightarrow>
                        (case addContribution env (as_amount (autoSave d)) (autoSave_description d)
                                AutoSave d of
                           Inl e \<Rightarrow> x
                         | Inr g1 \<Rightarrow> sweep_stored env d))"
      proof (cases "g_id x = g_id goal")
        case True
        with skip Inr st id2 show ?thesis by simp
      next
        case False
        with id2 show ?thesis by (simp add: eq_commute [of "g_id goal"])
      qed
    qed
    finally show ?thesis .
  qed
qed

lemma find_own_id:
  assumes "distinct (map g_id s)" and "x \<in> set s"
  shows "find (\<lambda>d. g_id d = g_id x) (filter P s) = (if P x then Some x else None)"
  using assms
proof (induction s)
  case Nil
  then show ?case by simp
next
  case (Cons a s)
  show ?case
  proof (cases "x = a")
    case True
    with Cons.prems have "g_id a \<notin> g_id ` set s" by simp
    then have "g_id a \<notin> g_id ` set (filter P s)" by auto
    then have "find (\<lambda>d. g_id d = g_id a) (filter P s) = None"
      by (rule find_absent_id)
    with True show ?thesis by simp
  next
    case False
    with Cons.prems have xs: "x \<in> set s" and "g_id a \<notin> g_id ` set s" by simp_all
    then have "g_id a \<noteq> g_id x" by force
    with Cons.IH xs Cons.prems show ?thesis by simp
  qed
qed

lemma processAutoSave_store:
  assumes "distinct (map g_id s)"
  shows "snd (processAutoSave None env s)
         = map (\<lambda>x. if x \<in> set (findAutoSaveDue env s) then sweep_stored env x else x) s"
proof -
  let ?due = "findAutoSaveDue env s"
  have dd: "distinct (map g_id ?due)"
    using assms by (simp add: findAutoSaveDue_def distinct_map_filter)
  have "snd (processAutoSave None env s) = fst (autoSave_loop env ?due s [])"
    by (simp add: processAutoSave_def case_prod_beta)
  also have "\<dots> = map (\<lambda>x. case find (\<lambda>d. g_id d = g_id x) ?due of
                      None \<Rightarrow> x
                    | Some d \<Rightarrow>
                        (case addContribution env (as_amount (autoSave d)) (autoSave_description d)
                                AutoSave d of
                           Inl e \<Rightarrow> x
                         | Inr g1 \<Rightarrow> sweep_stored env d)) s"
    by (rule autoSave_loop_store [OF dd])
  also have "\<dots> = map (\<lambda>x. if x \<in> set ?due then sweep_stored env x else x) s"
  proof (rule map_cong [OF refl])
    fix x
    assume x: "x \<in> set s"
    have f: "find (\<lambda>d. g_id d = g_id x) ?due = (if x \<in> set ?due then Some x else None)"
      using find_own_id [OF assms x] x by (simp add: findAutoSaveDue_def)
    show "(case find (\<lambda>d. g_id d = g_id x) ?due of
                      None \<Rightarrow> x
                    | Some d \<Rightarrow>
                        (case addContribution env (as_amount (autoSave d)) (autoSave_description d)
                                AutoSave d of
                           Inl e \<Rightarrow> x
                         | Inr g1 \<Rightarrow> sweep_stored env d))
          = (if x \<in> set ?due then sweep_stored env x else x)"
      unfolding f by (simp add: sweep_stored_def split: sum.splits)
  qed
  finally show ?thesis .
qed

text \<open>
  When the lookup of the due goals itself rejects there is no set of due goals: the
  handler throws that error and the collection is as it was.
\<close>

lemma processAutoSave_lookup_rejects:
  "processAutoSave (Some e) env s = (Inl e, s)"
  by (simp add: processAutoSave_def)

lemma autoSave_loop_length:
  "length (fst (autoSave_loop env due t results)) = length t"
  by (induction due arbitrary: t results)
     (simp_all add: persist_goal_def Let_def split: sum.splits)

lemma calculateNextContribution_cong:
  assumes "as_enabled (autoSave a) = as_enabled (autoSave b)"
    and "as_frequency (autoSave a) = as_frequency (autoSave b)"
  shows "calculateNextContribution env a = calculateNextContribution env b"
  using assms by (simp add: calculateNextContribution_def)

lemma sweep_stored_fields:
  assumes "addContribution env (as_amount (autoSave g)) (autoSave_description g) AutoSave g = Inr g1"
  shows "sweep_stored env g
           = g1\<lparr>autoSave := (autoSave g1)\<lparr>as_nextContribution := calculateNextContribution env g1\<rparr>\<rparr>
         \<and> currentAmount (sweep_stored env g)
             = min (currentAmount g + as_amount (autoSave g)) (targetAmount g)
         \<and> contributions (sweep_stored env g)
             = contributions g @
                 [\<lparr>c_amount = currentAmount (sweep_stored env g) - currentAmount g, c_date = now env,
                   c_description = autoSave_description g, c_source = AutoSave\<rparr>]
         \<and> as_nextContribution (autoSave (sweep_stored env g)) = calculateNextContribution env g"
proof -
  from addContribution_result [OF assms]
  have cur: "currentAmount g1 = min (currentAmount g + as_amount (autoSave g)) (targetAmount g)"
    and entries: "contributions g1 = contributions g @
              [\<lparr>c_amount = min (currentAmount g + as_amount (autoSave g)) (targetAmount g) - currentAmount g,
                c_date = now env, c_description = autoSave_description g, c_source = AutoSave\<rparr>]"
    and policy: "autoSave g1 = autoSave (goal_pre_save env g)"
    by simp_all
  have "as_enabled (autoSave (goal_pre_save env g)) = as_enabled (autoSave g)"
    and "as_frequency (autoSave (goal_pre_save env g)) = as_frequency (autoSave g)"
    by (simp_all add: goal_pre_save_def Let_def)
  with policy have "calculateNextContribution env g1 = calculateNextContribution env g"
    by (intro calculateNextContribution_cong) simp_all
  with assms cur entries show ?thesis by (simp add: sweep_stored_def)
qed

text \<open>
  C9. The auto-save sweep isolates the failures of single goals. Once the due goals are
  looked up, the sweep answers with a list of results that has one entry for every due
  goal, in order: the entry of a goal whose contribution throws has status failed and
  carries the error's message, the entry of every other due goal has status success,
  whatever happened to the goals before it. And the sweep does the work: in a collection
  of unique ids, every due goal whose contribution does not throw is stored with the
  auto-save amount added (clamped at the target), one more log entry of source auto-save
  for the amount added, and its next contribution rescheduled; a due goal whose
  contribution throws and every goal that is not due are stored as they were.
\<close>

theorem processAutoSave_isolates_failures:
  "\<exists>results s'.
      processAutoSave None env s = (Inr results, s')
      \<and> length results = length (findAutoSaveDue env s)
      \<and> (\<forall>i < length (findAutoSaveDue env s).
            r_goalId (results ! i) = g_id (findAutoSaveDue env s ! i)
            \<and> (case addContribution env (as_amount (autoSave (findAutoSaveDue env s ! i)))
                       (autoSave_description (findAutoSaveDue env s ! i)) AutoSave
                       (findAutoSaveDue env s ! i) of
                  Inl e \<Rightarrow> r_status (results ! i) = Failed
                           \<and> r_error (results ! i) = Some (message e)
                | Inr g' \<Rightarrow> r_status (results ! i) = Success
                           \<and> r_error (results ! i) = None))
      \<and> length s' = length s
      \<and> (distinct (map g_id s) \<longrightarrow>
           (\<forall>j < length s.
              if s ! j \<in> set (findAutoSaveDue env s)
              then (case addContribution env (as_amount (autoSave (s ! j)))
                           (autoSave_description (s ! j)) AutoSave (s ! j) of
                      Inl e \<Rightarrow> s' ! j = s ! j
                    | Inr g1 \<Rightarrow>
                        s' ! j = g1\<lparr>autoSave :=
                                     (autoSave g1)\<lparr>as_nextContribution :=
                                                       calculateNextContribution env g1\<rparr>\<rparr>
                        \<and> currentAmount (s' ! j)
                            = min (currentAmount (s ! j) + as_amount (autoSave (s ! j)))
                                  (targetAmount (s ! j))
                        \<and> contributions (s' ! j)
                            = contributions (s ! j) @
                                [\<lparr>c_amount = currentAmount (s' ! j) - currentAmount (s ! j),
                                  c_date = now env,
                                  c_description = autoSave_description (s ! j),
                                  c_source = AutoSave\<rparr>]
                        \<and> as_nextContribution (autoSave (s' ! j))
                            = calculateNextContribution env (s ! j))
              else s' ! j = s ! j))"
proof -
  let ?due = "findAutoSaveDue env s"
  let ?results = "map (sweep_outcome env) ?due"
  let ?s' = "snd (processAutoSave None env s)"
  have run: "processAutoSave None env s = (Inr ?results, ?s')"
    using processAutoSave_results [of env s] by (simp add: prod_eq_iff)
  have len: "length ?results = length ?due" by simp
  have entries: "\<forall>i < length ?due.
            r_goalId (?results ! i) = g_id (?due ! i)
            \<and> (case addContribution env (as_amount (autoSave (?due ! i)))
                       (autoSave_description (?due ! i)) AutoSave (?due ! i) of
                  Inl e \<Rightarrow> r_status (?results ! i) = Failed
                           \<and> r_error (?results ! i) = Some (message e)
                | Inr g' \<Rightarrow> r_status (?results ! i) = Success
                           \<and> r_error (?results ! i) = None)"
    (is "\<forall>i < _. ?entry i")
  proof (intro allI impI)
    fix i
    assume "i < length ?due"
    then have "?results ! i = sweep_outcome env (?due ! i)" by simp
    with sweep_outcome_fields [of env "?due ! i"] show "?entry i" by (simp split: sum.splits)
  qed
  have slen: "length ?s' = length s"
    by (simp add: processAutoSave_def case_prod_beta autoSave_loop_length)
  have stored: "distinct (map g_id s) \<longrightarrow>
           (\<forall>j < length s.
              if s ! j \<in> set ?due
              then (case addContribution env (as_amount (autoSave (s ! j)))
                           (autoSave_description (s ! j)) AutoSave (s ! j) of
                      Inl e \<Rightarrow> ?s' ! j = s ! j
                    | Inr g1 \<Rightarrow>
                        ?s' ! j = g1\<lparr>autoSave :=
                                     (autoSave g1)\<lparr>as_nextContribution :=
                                                       calculateNextContribution env g1\<rparr>\<rparr>
                        \<and> currentAmount (?s' ! j)
                            = min (currentAmount (s ! j) + as_amount (autoSave (s ! j)))
                                  (targetAmount (s ! j))
                        \<and> contributions (?s' ! j)
                            = contributions (s ! j) @
                                [\<lparr>c_amount = currentAmount (?s' ! j) - currentAmount (s ! j),
                                  c_date = now env,
                                  c_description = autoSave_description (s ! j),
                                  c_source = AutoSave\<rparr>]
                        \<and> as_nextContribution (autoSave (?s' ! j))
                            = calculateNextContribution env (s ! j))
              else ?s' ! j = s ! j)"
    (is "_ \<longrightarrow> (\<forall>j < _. ?kept j)")
  proof (intro impI allI)
    fix j
    assume dist: "distinct (map g_id s)" and j: "j < length s"
    from processAutoSave_store [OF dist, of env] j
    have at: "?s' ! j = (if s ! j \<in> set ?due then sweep_stored env (s ! j) else s ! j)"
      by simp
    show "?kept j"
    proof (cases "s ! j \<in> set ?due")
      case False
      with at show ?thesis by simp
    next
      case True
      show ?thesis
      proof (cases "addContribution env (as_amount (autoSave (s ! j)))
                      (autoSave_description (s ! j)) AutoSave (s ! j)")
        case (Inl e)
        with True at show ?thesis by (simp add: sweep_stored_def)
      next
        case (Inr g1)
        from at True have eq: "?s' ! j = sweep_stored env (s ! j)" by simp
        show ?thesis
          unfolding eq
          by (simp only: True Inr if_True sum.case) (rule sweep_stored_fields [OF Inr])
      qed
    qed
  qed
  from run len entries slen stored show ?thesis by blast
qed

theorem processAutoSave_isolates_failures_witness:
  "distinct (map g_id [sample_due_goal 1 0, sample_due_goal 2 50, sample_goal 3 1000 200 [sample_entry 200]])
   \<and> (\<exists>results s'.
        processAutoSave None (sample_env 20)
          [sample_due_goal 1 0, sample_due_goal 2 50, sample_goal 3 1000 200 [sample_entry 200]]
          = (Inr results, s')
        \<and> map r_goalId results = [1, 2]
        \<and> map r_status results = [Failed, Success]
        \<and> map r_error results = [Some ''Contribution amount must be positive'', None]
        \<and> length s' = 3
        \<and> s' ! 0 = sample_due_goal 1 0
        \<and> currentAmount (s' ! 1) = 50
        \<and> map c_amount (contributions (s' ! 1)) = [50]
        \<and> map c_source (contributions (s' ! 1)) = [AutoSave]
        \<and> as_nextContribution (autoSave (s' ! 1)) = Some 604800020
        \<and> s' ! 2 = sample_goal 3 1000 200 [sample_entry 200])"
proof -
  let ?env = "sample_env 20"
  let ?a = "sample_due_goal 1 0"
  let ?b = "sample_due_goal 2 50"
  let ?c = "sample_goal 3 1000 200 [sample_entry 200]"
  let ?s = "[?a, ?b, ?c]"
  have dist: "distinct (map g_id ?s)"
    by (simp add: sample_due_goal_def sample_goal_def)
  have due: "findAutoSaveDue ?env ?s = [?a, ?b]"
    by (simp add: findAutoSaveDue_def sample_due_goal_def sample_goal_def sample_env_def
        default_autosave_def)
  have ca: "?c \<noteq> ?a" and cb: "?c \<noteq> ?b" and ab: "?a \<noteq> ?b"
    by (simp_all add: sample_due_goal_def sample_goal_def)
  have first: "addContribution ?env (as_amount (autoSave ?a)) (autoSave_description ?a) AutoSave ?a
               = Inl (Error ''Contribution amount must be positive'')"
    by (simp add: addContribution_def sample_due_goal_def)
  obtain g1 where second:
    "addContribution ?env (as_amount (autoSave ?b)) (autoSave_description ?b) AutoSave ?b = Inr g1"
    by (simp add: addContribution_def sample_due_goal_def sample_goal_def goal_save_def
        goal_schema_ok_def deadline_ok_def sample_env_def goal_categories_def Let_def)
  have resched: "calculateNextContribution ?env ?b = Some 604800020"
    by (simp add: calculateNextContribution_def sample_due_goal_def sample_env_def)
  from processAutoSave_isolates_failures [of ?env ?s]
  obtain results s' where run: "processAutoSave None ?env ?s = (Inr results, s')"
    and len: "length results = length (findAutoSaveDue ?env ?s)"
    and each: "\<forall>i < length (findAutoSaveDue ?env ?s).
            r_goalId (results ! i) = g_id (findAutoSaveDue ?env ?s ! i)
            \<and> (case addContribution ?env (as_amount (autoSave (findAutoSaveDue ?env ?s ! i)))
                       (autoSave_description (findAutoSaveDue ?env ?s ! i)) AutoSave
                       (findAutoSaveDue ?env ?s ! i) of
                  Inl e \<Rightarrow> r_status (results ! i) = Failed
                           \<and> r_error (results ! i) = Some (message e)
                | Inr g' \<Rightarrow> r_status (results ! i) = Success
                           \<and> r_error (results ! i) = None)"
    and slen: "length s' = length ?s"
    and stored: "distinct (map g_id ?s) \<longrightarrow>
           (\<forall>j < length ?s.
              if ?s ! j \<in> set (findAutoSaveDue ?env ?s)
              then (case addContribution ?env (as_amount (autoSave (?s ! j)))
                           (autoSave_description (?s ! j)) AutoSave (?s ! j) of
                      Inl e \<Rightarrow> s' ! j = ?s ! j
                    | Inr g1 \<Rightarrow>
                        s' ! j = g1\<lparr>autoSave :=
                                     (autoSave g1)\<lparr>as_nextContribution :=
                                                       calculateNextContribution ?env g1\<rparr>\<rparr>
                        \<and> currentAmount (s' ! j)
                            = min (currentAmount (?s ! j) + as_amount (autoSave (?s ! j)))
                                  (targetAmount (?s ! j))
                        \<and> contributions (s' ! j)
                            = contributions (?s ! j) @
                                [\<lparr>c_amount = currentAmount (s' ! j) - currentAmount (?s ! j),
                                  c_date = now ?env,
                                  c_description = autoSave_description (?s ! j),
                                  c_source = AutoSave\<rparr>]
                        \<and> as_nextContribution (autoSave (s' ! j))
                            = calculateNextContribution ?env (?s ! j))
              else s' ! j = ?s ! j)"
    by blast
  from len [unfolded due] have len2: "length results = 2" by simp
  from each [unfolded due, rule_format, of 0] first
  have e0: "r_goalId (results ! 0) = 1 \<and> r_status (results ! 0) = Failed
            \<and> r_error (results ! 0) = Some ''Contribution amount must be positive''"
    by (simp add: sample_due_goal_def sample_goal_def)
  from each [unfolded due, rule_format, of 1] second
  have e1: "r_goalId (results ! 1) = 2 \<and> r_status (results ! 1) = Success
            \<and> r_error (results ! 1) = None"
    by (auto simp: sample_due_goal_def sample_goal_def)
  from len2 obtain x y where xy: "results = [x, y]"
    by (cases results; cases "tl results") auto
  from xy e0 e1 have res: "map r_goalId results = [1, 2]
      \<and> map r_status results = [Failed, Success]
      \<and> map r_error results = [Some ''Contribution amount must be positive'', None]"
    by simp
  note at = stored [unfolded due, rule_format, OF dist]
  from at [of 0] first have s0: "s' ! 0 = ?a" by simp
  have l1: "(1::nat) < length ?s" and n1: "?s ! 1 = ?b" and m1: "?b \<in> set [?a, ?b]"
    by simp_all
  from at [of 1, OF l1, unfolded n1]
  have "case addContribution ?env (as_amount (autoSave ?b)) (autoSave_description ?b) AutoSave ?b of
          Inl e \<Rightarrow> s' ! 1 = ?b
        | Inr g1 \<Rightarrow>
            s' ! 1 = g1\<lparr>autoSave :=
                         (autoSave g1)\<lparr>as_nextContribution :=
                                           calculateNextContribution ?env g1\<rparr>\<rparr>
            \<and> currentAmount (s' ! 1)
                = min (currentAmount ?b + as_amount (autoSave ?b)) (targetAmount ?b)
            \<and> contributions (s' ! 1)
                = contributions ?b @
                    [\<lparr>c_amount = currentAmount (s' ! 1) - currentAmount ?b, c_date = now ?env,
                      c_description = autoSave_description ?b, c_source = AutoSave\<rparr>]
            \<and> as_nextContribution (autoSave (s' ! 1)) = calculateNextContribution ?env ?b"
    by (simp only: m1 if_True)
  note full = this [unfolded second sum.case]
  from full
  have s1: "currentAmount (s' ! 1) = min (currentAmount ?b + as_amount (autoSave ?b)) (targetAmount ?b)
      \<and> contributions (s' ! 1)
          = contributions ?b @
              [\<lparr>c_amount = currentAmount (s' ! 1) - currentAmount ?b, c_date = now ?env,
                c_description = autoSave_description ?b, c_source = AutoSave\<rparr>]
      \<and> as_nextContribution (autoSave (s' ! 1)) = calculateNextContribution ?env ?b"
    by (rule conjunct2)
  then have s1a: "currentAmount (s' ! 1) = 50"
    by (simp add: sample_due_goal_def sample_goal_def)
  from s1 s1a have s1b: "map c_amount (contributions (s' ! 1)) = [50]
      \<and> map c_source (contributions (s' ! 1)) = [AutoSave]"
    by (simp add: sample_due_goal_def sample_goal_def)
  from s1 resched have s1c: "as_nextContribution (autoSave (s' ! 1)) = Some 604800020"
    by simp
  from at [of 2] ca cb have s2: "s' ! 2 = ?c" by simp
  from slen have slen3: "length s' = 3" by simp
  from res have r1: "map r_goalId results = [1, 2]"
    and r2: "map r_status results = [Failed, Success]"
    and r3: "map r_error results = [Some ''Contribution amount must be positive'', None]"
    by (rule conjunct1, rule conjunct2 [THEN conjunct1], rule conjunct2 [THEN conjunct2])
  from s1b have b1: "map c_amount (contributions (s' ! 1)) = [50]"
    and b2: "map c_source (contributions (s' ! 1)) = [AutoSave]"
    by (rule conjunct1, rule conjunct2)
  from run r1 r2 r3 slen3 s0 s1a b1 b2 s1c s2
  have "processAutoSave None ?env ?s = (Inr results, s')
        \<and> map r_goalId results = [1, 2]
        \<and> map r_status results = [Failed, Success]
        \<and> map r_error results = [Some ''Contribution amount must be positive'', None]
        \<and> length s' = 3
        \<and> s' ! 0 = ?a
        \<and> currentAmount (s' ! 1) = 50
        \<and> map c_amount (contributions (s' ! 1)) = [50]
        \<and> map c_source (contributions (s' ! 1)) = [AutoSave]
        \<and> as_nextContribution (autoSave (s' ! 1)) = Some 604800020
        \<and> s' ! 2 = ?c"
    by (intro conjI)
  then have "\<exists>results s'.
        processAutoSave None ?env ?s = (Inr results, s')
        \<and> map r_goalId results = [1, 2]
        \<and> map r_status results = [Failed, Success]
        \<and> map r_error results = [Some ''Contribution amount must be positive'', None]
        \<and> length s' = 3
        \<and> s' ! 0 = ?a
        \<and> currentAmount (s' ! 1) = 50
        \<and> map c_amount (contributions (s' ! 1)) = [50]
        \<and> map c_source (contributions (s' ! 1)) = [AutoSave]
        \<and> as_nextContribution (autoSave (s' ! 1)) = Some 604800020
        \<and> s' ! 2 = ?c"
    by (intro exI)
  with dist show ?thesis by (rule conjI)
qed

subsection \<open>Monotonic completion\<close>

lemma keeps_completion_refl: "keeps_completion g g"
  by (simp add: keeps_completion_def)

lemma keeps_completion_trans:
  "keeps_completion a b \<Longrightarrow> keeps_completion b c \<Longrightarrow> keeps_completion a c"
  by (auto simp: keeps_completion_def split: if_splits)

lemma goal_pre_save_keeps: "keeps_completion g (goal_pre_save env g)"
  by (simp add: keeps_completion_def goal_pre_save_def Let_def)

lemma goal_save_keeps:
  assumes "goal_save env g = Inr g'"
  shows "keeps_completion g g'"
  using assms goal_pre_save_keeps [of g env]
  by (auto simp: goal_save_def split: if_splits)

lemma addContribution_keeps:
  assumes "addContribution env amount description source g = Inr g'"
  shows "keeps_completion g g'"
proof (cases "amount \<le> 0")
  case True
  with assms show ?thesis by (simp add: addContribution_def)
next
  case False
  let ?g2 = "g\<lparr>currentAmount := min (currentAmount g + amount) (targetAmount g),
               contributions := contributions g @
                 [\<lparr>c_amount = min (currentAmount g + amount) (targetAmount g) - currentAmount g,
                   c_date = now env, c_description = description, c_source = source\<rparr>]\<rparr>"
  from False assms have "goal_save env ?g2 = Inr g'"
    by (simp add: addContribution_def Let_def)
  then have "keeps_completion ?g2 g'" by (rule goal_save_keeps)
  moreover have "keeps_completion g ?g2" by (simp add: keeps_completion_def)
  ultimately show ?thesis by (blast intro: keeps_completion_trans)
qed

lemma same_id_same_goal:
  assumes "distinct (map g_id s)" and "a \<in> set s" and "b \<in> set s" and "g_id a = g_id b"
  shows "a = b"
  using assms by (meson distinct_map inj_on_def)

lemma keeps_ids:
  assumes "list_all2 keeps_completion s t"
  shows "map g_id t = map g_id s"
  using assms by (induction rule: list_all2_induct) (simp_all add: keeps_completion_def)

lemma persist_goal_keeps:
  assumes rel: "list_all2 keeps_completion s t"
    and dist: "distinct (map g_id s)"
    and mem: "d \<in> set s"
    and step: "keeps_completion d g'"
  shows "list_all2 keeps_completion s (persist_goal g' t)"
proof -
  have len: "length s = length t" using rel by (rule list_all2_lengthD)
  have "keeps_completion (s ! i) (persist_goal g' t ! i)" if i: "i < length s" for i
  proof (cases "g_id (t ! i) = g_id g'")
    case True
    from rel i have "keeps_completion (s ! i) (t ! i)" by (simp add: list_all2_nthD)
    then have "g_id (s ! i) = g_id (t ! i)" by (simp add: keeps_completion_def)
    with True step have "g_id (s ! i) = g_id d" by (simp add: keeps_completion_def)
    with dist mem i have "s ! i = d" by (intro same_id_same_goal [of s]) simp_all
    with True step i len show ?thesis by (simp add: persist_goal_def)
  next
    case False
    with rel i len show ?thesis by (simp add: persist_goal_def list_all2_nthD)
  qed
  with len show ?thesis by (simp add: list_all2_conv_all_nth persist_goal_def)
qed

lemma keeps_self: "list_all2 keeps_completion s s"
  by (simp add: list_all2_same keeps_completion_refl)

lemma find_in_set:
  assumes "find P s = Some x"
  shows "x \<in> set s"
  using assms by (auto simp: find_Some_iff)

lemma contributeToGoal_keeps:
  assumes "distinct (map g_id s)"
  shows "list_all2 keeps_completion s (snd (contributeToGoal env uid gid amount description s))"
  using assms
  by (auto simp: contributeToGoal_def Let_def keeps_self split: option.splits sum.splits
      intro!: persist_goal_keeps dest: find_in_set addContribution_keeps)

lemma assign_goal_fields_keeps: "keeps_completion g (assign_goal_fields up g)"
  by (simp add: assign_goal_fields_def keeps_completion_def Let_def split: option.splits)

lemma updateGoal_keeps:
  assumes "distinct (map g_id s)"
  shows "list_all2 keeps_completion s (snd (updateGoal env uid gid up s))"
  using assms
  by (auto simp: updateGoal_def Let_def keeps_self split: option.splits sum.splits
      intro!: persist_goal_keeps
      dest: find_in_set
      intro: keeps_completion_trans [OF assign_goal_fields_keeps goal_save_keeps])

lemma deactivate_keeps: "keeps_completion g (g\<lparr>g_isActive := False\<rparr>)"
  by (simp add: keeps_completion_def)

lemma deleteGoal_keeps:
  assumes "distinct (map g_id s)"
  shows "list_all2 keeps_completion s (snd (deleteGoal env uid gid s))"
  using assms
  by (auto simp: deleteGoal_def keeps_self split: option.splits sum.splits
      intro!: persist_goal_keeps
      dest: find_in_set
      intro: keeps_completion_trans [OF deactivate_keeps goal_save_keeps])

lemma reschedule_keeps:
  "keeps_completion g (g\<lparr>autoSave := a\<rparr>)"
  by (simp add: keeps_completion_def)

lemma autoSave_loop_keeps:
  assumes "list_all2 keeps_completion s0 t" and "distinct (map g_id s0)" and "set due \<subseteq> set s0"
  shows "list_all2 keeps_completion s0 (fst (autoSave_loop env due t results))"
  using assms
proof (induction due arbitrary: t results)
  case Nil
  then show ?case by simp
next
  case (Cons goal rest)
  from Cons.prems have mem: "goal \<in> set s0" and sub: "set rest \<subseteq> set s0" by simp_all
  show ?case
  proof (cases "addContribution env (as_amount (autoSave goal)) (autoSave_description goal) AutoSave goal")
    case (Inl e)
    with Cons.IH [OF Cons.prems(1) Cons.prems(2) sub] show ?thesis by simp
  next
    case (Inr g1)
    let ?g2 = "g1\<lparr>autoSave := (autoSave g1)\<lparr>as_nextContribution := calculateNextContribution env g1\<rparr>\<rparr>"
    from Inr have k1: "keeps_completion goal g1" by (rule addContribution_keeps)
    have p1: "list_all2 keeps_completion s0 (persist_goal g1 t)"
      using Cons.prems(1) Cons.prems(2) mem k1 by (rule persist_goal_keeps)
    show ?thesis
    proof (cases "goal_save env ?g2")
      case (Inl e)
      with Inr Cons.IH [OF p1 Cons.prems(2) sub] show ?thesis by (simp add: Let_def)
    next
      case (Inr g3)
      then have "keeps_completion ?g2 g3" by (rule goal_save_keeps)
      with k1 reschedule_keeps [of g1] have k3: "keeps_completion goal g3"
        by (blast intro: keeps_completion_trans)
      have p3: "list_all2 keeps_completion s0 (persist_goal g3 t)"
        using Cons.prems(1) Cons.prems(2) mem k3 by (rule persist_goal_keeps)
      from \<open>addContribution env (as_amount (autoSave goal)) (autoSave_description goal) AutoSave goal = Inr g1\<close>
        Inr Cons.IH [OF p3 Cons.prems(2) sub]
      show ?thesis by (simp add: Let_def)
    qed
  qed
qed

lemma processAutoSave_keeps:
  assumes "distinct (map g_id s)"
  shows "list_all2 keeps_completion s (snd (processAutoSave lookup env s))"
proof (cases lookup)
  case (Some e)
  then show ?thesis by (simp add: processAutoSave_def keeps_self)
next
  case None
  have "set (findAutoSaveDue env s) \<subseteq> set s" by (auto simp: findAutoSaveDue_def)
  with keeps_self assms
  have "list_all2 keeps_completion s (fst (autoSave_loop env (findAutoSaveDue env s) s []))"
    by (rule autoSave_loop_keeps)
  with None show ?thesis by (simp add: processAutoSave_def case_prod_beta)
qed

lemma apply_goal_op_keeps:
  assumes "distinct (map g_id s)"
  shows "list_all2 keeps_completion s (apply_goal_op env op s)"
  using assms
  by (cases op)
     (simp_all add: contributeToGoal_keeps updateGoal_keeps deleteGoal_keeps processAutoSave_keeps)

lemma run_goal_ops_keeps:
  assumes "distinct (map g_id s)"
  shows "list_all2 keeps_completion s (run_goal_ops ops s)"
  using assms
proof (induction ops arbitrary: s)
  case Nil
  then show ?case by (simp add: keeps_self)
next
  case (Cons eo ops)
  obtain env op where eo: "eo = (env, op)" by (cases eo)
  from Cons.prems have one: "list_all2 keeps_completion s (apply_goal_op env op s)"
    by (rule apply_goal_op_keeps)
  then have "map g_id (apply_goal_op env op s) = map g_id s" by (rule keeps_ids)
  with Cons.prems have "distinct (map g_id (apply_goal_op env op s))" by simp
  then have "list_all2 keeps_completion (apply_goal_op env op s) (run_goal_ops ops (apply_goal_op env op s))"
    by (rule Cons.IH)
  with one have "list_all2 keeps_completion s (run_goal_ops ops (apply_goal_op env op s))"
    by (rule list_all2_trans [rotated 1]) (rule keeps_completion_trans)
  with eo show ?case by simp
qed

lemma goal_save_completion:
  assumes "goal_save env x = Inr x'"
  shows "if isCompleted x then isCompleted x' \<and> completedAt x' = completedAt x
         else if targetAmount x \<le> currentAmount x
              then isCompleted x' \<and> completedAt x' = Some (now env)
              else \<not> isCompleted x' \<and> completedAt x' = completedAt x"
  using assms
  by (auto simp: goal_save_def goal_pre_save_def Let_def split: if_splits)

text \<open>
  C6. Completion is monotonic. A completed goal of the collection is still completed,
  with the same \<open>completedAt\<close>, after any sequence of contribute, update, delete and
  auto-save sweep requests. And every save assigns \<open>completedAt\<close> exactly when the goal
  was not completed and its current amount has reached the target; a save of a completed
  goal leaves \<open>isCompleted\<close> and \<open>completedAt\<close> as they are.
\<close>

theorem completion_is_monotonic:
  assumes "distinct (map g_id s)" and "g \<in> set s" and "isCompleted g"
  shows "(\<exists>g' \<in> set (run_goal_ops ops s).
            g_id g' = g_id g \<and> isCompleted g' \<and> completedAt g' = completedAt g)
         \<and> (\<forall>env x x'. goal_save env x = Inr x' \<longrightarrow>
               (if isCompleted x then isCompleted x' \<and> completedAt x' = completedAt x
                else if targetAmount x \<le> currentAmount x
                     then isCompleted x' \<and> completedAt x' = Some (now env)
                     else \<not> isCompleted x' \<and> completedAt x' = completedAt x))"
proof
  from assms(1) have rel: "list_all2 keeps_completion s (run_goal_ops ops s)"
    by (rule run_goal_ops_keeps)
  from assms(2) obtain i where i: "i < length s" and gi: "s ! i = g"
    by (auto simp: in_set_conv_nth)
  from rel i have "keeps_completion (s ! i) (run_goal_ops ops s ! i)"
    by (rule list_all2_nthD)
  with gi assms(3)
  have "g_id (run_goal_ops ops s ! i) = g_id g \<and> isCompleted (run_goal_ops ops s ! i)
        \<and> completedAt (run_goal_ops ops s ! i) = completedAt g"
    by (simp add: keeps_completion_def)
  moreover from rel i have "run_goal_ops ops s ! i \<in> set (run_goal_ops ops s)"
    by (simp add: list_all2_lengthD)
  ultimately show "\<exists>g' \<in> set (run_goal_ops ops s).
            g_id g' = g_id g \<and> isCompleted g' \<and> completedAt g' = completedAt g"
    by blast
next
  show "\<forall>env x x'. goal_save env x = Inr x' \<longrightarrow>
               (if isCompleted x then isCompleted x' \<and> completedAt x' = completedAt x
                else if targetAmount x \<le> currentAmount x
                     then isCompleted x' \<and> completedAt x' = Some (now env)
                     else \<not> isCompleted x' \<and> completedAt x' = completedAt x)"
    using goal_save_completion by blast
qed

theorem completion_is_monotonic_witness:
  "distinct (map g_id [sample_completed_goal, sample_due_goal 2 50])
   \<and> sample_completed_goal \<in> set [sample_completed_goal, sample_due_goal 2 50]
   \<and> isCompleted sample_completed_goal
   \<and> (\<exists>g' \<in> set (run_goal_ops
                    [(sample_env 20, Contribute 7 1 100 ''more''),
                     (sample_env 30, AutoSaveSweep None),
                     (sample_env 40, Update 7 1 \<lparr>up_name = None, up_targetAmount = Some 5000,
                          up_category = None, up_deadline = None, up_autoSave = None\<rparr>),
                     (sample_env 50, Delete 7 1)]
                    [sample_completed_goal, sample_due_goal 2 50]).
          g_id g' = 1 \<and> isCompleted g' \<and> completedAt g' = Some 5)
   \<and> (\<exists>x'. goal_save (sample_env 20) (sample_goal 3 1000 1000 [sample_entry 1000]) = Inr x'
          \<and> isCompleted x' \<and> completedAt x' = Some 20)"
proof -
  let ?s = "[sample_completed_goal, sample_due_goal 2 50]"
  let ?ops = "[(sample_env 20, Contribute 7 1 100 ''more''),
               (sample_env 30, AutoSaveSweep None),
               (sample_env 40, Update 7 1 \<lparr>up_name = None, up_targetAmount = Some 5000,
                    up_category = None, up_deadline = None, up_autoSave = None\<rparr>),
               (sample_env 50, Delete 7 1)]"
  let ?x = "sample_goal 3 1000 1000 [sample_entry 1000]"
  have d: "distinct (map g_id ?s)"
    by (simp add: sample_completed_goal_def sample_due_goal_def sample_goal_def)
  have m: "sample_completed_goal \<in> set ?s" by simp
  have c: "isCompleted sample_completed_goal" by (simp add: sample_completed_goal_def)
  have sv: "goal_save (sample_env 20) ?x = Inr (goal_pre_save (sample_env 20) ?x)"
    by (simp add: goal_save_def goal_schema_ok_def deadline_ok_def sample_env_def
        sample_goal_def sample_entry_def default_autosave_def goal_categories_def)
  note inst = completion_is_monotonic [OF d m c, of ?ops]
  from inst have "\<exists>g' \<in> set (run_goal_ops ?ops ?s).
      g_id g' = g_id sample_completed_goal \<and> isCompleted g'
      \<and> completedAt g' = completedAt sample_completed_goal"
    by (rule conjunct1)
  then have part1: "\<exists>g' \<in> set (run_goal_ops ?ops ?s).
      g_id g' = 1 \<and> isCompleted g' \<and> completedAt g' = Some 5"
    by (simp add: sample_completed_goal_def sample_goal_def)
  from inst sv have "isCompleted (goal_pre_save (sample_env 20) ?x)
      \<and> completedAt (goal_pre_save (sample_env 20) ?x) = Some (now (sample_env 20))"
    by (auto simp: sample_goal_def)
  then have part2: "\<exists>x'. goal_save (sample_env 20) ?x = Inr x'
          \<and> isCompleted x' \<and> completedAt x' = Some 20"
    using sv by (simp add: sample_env_def)
  from d m c part1 part2 show ?thesis by (intro conjI)
qed

section \<open>Properties of the budget aggregator\<close>

lemma budget_pre_save_spent: "spent (budget_pre_save b) = spent b"
  by (simp add: budget_pre_save_def)

lemma budget_pre_save_amount: "b_amount (budget_pre_save b) = b_amount b"
  by (simp add: budget_pre_save_def)

lemma budget_pre_save_prefix:
  "i < length (thresholds b) \<Longrightarrow>
     i < length (thresholds (budget_pre_save b))
     \<and> thresholds (budget_pre_save b) ! i = thresholds b ! i"
  by (cases "thresholds b = []") (simp_all add: budget_pre_save_def)

lemma budget_save_amount:
  assumes "budget_save b = Inr b'"
  shows "b_amount b' = b_amount b"
  using assms by (auto simp: budget_save_def budget_pre_save_amount split: if_splits)

lemma updateSpent_amount:
  assumes "updateSpent env n old b = Inr b'"
  shows "b_amount b' = b_amount b"
  using assms budget_save_amount unfolding updateSpent_def Let_def by fastforce

lemma recalculate_amount:
  assumes "recalculateBudgetSpending es b = Inr b'"
  shows "b_amount b' = b_amount b"
proof (cases "sum_list (map e_amount (filter (counts_toward b) es)) < b_amount b")
  case True
  with assms budget_save_amount show ?thesis
    unfolding recalculateBudgetSpending_def Let_def by fastforce
next
  case False
  with assms budget_save_amount show ?thesis
    unfolding recalculateBudgetSpending_def Let_def by fastforce
qed

text \<open>
  C4. The incremental update never clears a threshold. On a stored budget,
  \<open>updateSpent\<close> succeeds, adds the signed difference to \<open>spent\<close> and clamps the sum at
  0; every threshold keeps its percentage; a threshold that was triggered stays
  triggered with its \<open>triggeredAt\<close>; a threshold that was not triggered is triggered
  exactly when the new percentage used has reached it, and is then stamped with the
  time of the call.
\<close>

theorem updateSpent_never_clears:
  assumes "budget_schema_ok b"
  shows "\<exists>b'. updateSpent env newExpenseAmount oldExpenseAmount b = Inr b'
           \<and> spent b' = max 0 (spent b + (newExpenseAmount - oldExpenseAmount))
           \<and> (\<forall>i < length (thresholds b).
                 i < length (thresholds b')
                 \<and> percentage (thresholds b' ! i) = percentage (thresholds b ! i)
                 \<and> (if triggered (thresholds b ! i)
                    then triggered (thresholds b' ! i)
                         \<and> triggeredAt (thresholds b' ! i) = triggeredAt (thresholds b ! i)
                    else if js_ge (percentageUsed b') (percentage (thresholds b ! i))
                    then triggered (thresholds b' ! i)
                         \<and> triggeredAt (thresholds b' ! i) = Some (now env)
                    else \<not> triggered (thresholds b' ! i)))"
proof -
  let ?sp = "max 0 (spent b + (newExpenseAmount - oldExpenseAmount))"
  let ?b1 = "b\<lparr>spent := ?sp\<rparr>"
  let ?flip = "\<lambda>t. if \<not> triggered t \<and> js_ge (percentageUsed ?b1) (percentage t)
                    then t\<lparr>triggered := True, triggeredAt := Some (now env)\<rparr> else t"
  let ?b2 = "?b1\<lparr>thresholds := map ?flip (thresholds ?b1)\<rparr>"
  have ok: "budget_schema_ok ?b2"
    using assms by (auto simp: budget_schema_ok_def list_all_iff)
  have run: "updateSpent env newExpenseAmount oldExpenseAmount b = Inr (budget_pre_save ?b2)"
    using ok by (simp add: updateSpent_def budget_save_def Let_def)
  have sp: "spent (budget_pre_save ?b2) = ?sp"
    by (simp add: budget_pre_save_spent)
  have pct: "percentageUsed (budget_pre_save ?b2) = percentageUsed ?b1"
    by (simp add: percentageUsed_def budget_pre_save_spent budget_pre_save_amount)
  have each: "i < length (thresholds (budget_pre_save ?b2))
        \<and> thresholds (budget_pre_save ?b2) ! i = ?flip (thresholds b ! i)"
    if "i < length (thresholds b)" for i
    using that budget_pre_save_prefix [of i ?b2] by simp
  show ?thesis
    unfolding run using sp pct each by (auto simp: Let_def)
qed

theorem updateSpent_never_clears_witness:
  "budget_schema_ok (sample_budget 1000 950
       [sample_threshold 50 True, sample_threshold 90 True, sample_threshold 100 False])
   \<and> (\<exists>b'. updateSpent (sample_env 20) (- 600) 0
               (sample_budget 1000 950
                  [sample_threshold 50 True, sample_threshold 90 True, sample_threshold 100 False])
             = Inr b'
          \<and> spent b' = 350
          \<and> triggered (thresholds b' ! 0) \<and> triggered (thresholds b' ! 1)
          \<and> \<not> triggered (thresholds b' ! 2))"
proof -
  let ?b = "sample_budget 1000 950
       [sample_threshold 50 True, sample_threshold 90 True, sample_threshold 100 False]"
  have ok: "budget_schema_ok ?b"
    by (simp add: budget_schema_ok_def sample_budget_def sample_threshold_def
        budget_categories_def expense_categories_def)
  from updateSpent_never_clears [OF ok, of "sample_env 20" "- 600" 0]
  obtain b' where run: "updateSpent (sample_env 20) (- 600) 0 ?b = Inr b'"
    and sp: "spent b' = max 0 (spent ?b + (- 600 - 0))"
    and each: "\<forall>i < length (thresholds ?b).
                 i < length (thresholds b')
                 \<and> percentage (thresholds b' ! i) = percentage (thresholds ?b ! i)
                 \<and> (if triggered (thresholds ?b ! i)
                    then triggered (thresholds b' ! i)
                         \<and> triggeredAt (thresholds b' ! i) = triggeredAt (thresholds ?b ! i)
                    else if js_ge (percentageUsed b') (percentage (thresholds ?b ! i))
                    then triggered (thresholds b' ! i)
                         \<and> triggeredAt (thresholds b' ! i) = Some (now (sample_env 20))
                    else \<not> triggered (thresholds b' ! i))"
    by blast
  from sp have sp': "spent b' = 350" by (simp add: sample_budget_def)
  have amt: "b_amount b' = 1000"
    using updateSpent_amount [OF run] by (simp add: sample_budget_def)
  from sp' amt have pct: "percentageUsed b' = Num 35"
    by (simp add: percentageUsed_def js_div_def)
  from each [rule_format, of 0] have t0: "triggered (thresholds b' ! 0)"
    by (simp add: sample_budget_def sample_threshold_def)
  from each [rule_format, of 1] have t1: "triggered (thresholds b' ! 1)"
    by (simp add: sample_budget_def sample_threshold_def)
  from each [rule_format, of 2] pct have t2: "\<not> triggered (thresholds b' ! 2)"
    by (simp add: sample_budget_def sample_threshold_def)
  from run sp' t0 t1 t2
  have "\<exists>b'. updateSpent (sample_env 20) (- 600) 0 ?b = Inr b'
          \<and> spent b' = 350
          \<and> triggered (thresholds b' ! 0) \<and> triggered (thresholds b' ! 1)
          \<and> \<not> triggered (thresholds b' ! 2)"
    by blast
  with ok show ?thesis by (rule conjI)
qed

text \<open>
  C5. The full recompute resets thresholds. On a stored budget and a ledger of
  non-negative amounts, \<open>recalculateBudgetSpending\<close> succeeds and sets \<open>spent\<close> to the
  sum of the completed expenses of the budget's user, category and window. Afterwards
  every threshold whose percentage is strictly above the recomputed \<open>percentageUsed\<close> is
  not triggered and has no \<open>triggeredAt\<close>, and every other threshold is as it was. This
  covers a recomputed \<open>spent\<close> at or above the budget's amount, where nothing is reset:
  the schema bounds percentages by 100, which is the percentage used then.
\<close>

theorem recalculate_resets_thresholds:
  assumes "budget_schema_ok b" and "list_all (\<lambda>e. 0 \<le> e_amount e) es"
  shows "\<exists>b'. recalculateBudgetSpending es b = Inr b'
           \<and> spent b' = sum_list (map e_amount (filter (counts_toward b) es))
           \<and> (\<forall>t' \<in> set (thresholds b').
                 js_lt (percentageUsed b') (percentage t')
                 \<longrightarrow> \<not> triggered t' \<and> triggeredAt t' = None)
           \<and> (\<forall>i < length (thresholds b).
                 i < length (thresholds b')
                 \<and> percentage (thresholds b' ! i) = percentage (thresholds b ! i)
                 \<and> (if js_lt (percentageUsed b') (percentage (thresholds b ! i))
                    then \<not> triggered (thresholds b' ! i) \<and> triggeredAt (thresholds b' ! i) = None
                    else thresholds b' ! i = thresholds b ! i))"
proof -
  let ?total = "sum_list (map e_amount (filter (counts_toward b) es))"
  let ?b1 = "b\<lparr>spent := ?total\<rparr>"
  let ?raw = "js_times100 (js_div ?total (b_amount b))"
  let ?reset = "\<lambda>t. if js_lt ?raw (percentage t)
                     then t\<lparr>triggered := False, triggeredAt := None\<rparr> else t"
  let ?b2 = "if ?total < b_amount b then ?b1\<lparr>thresholds := map ?reset (thresholds b)\<rparr> else ?b1"
  from assms(2) have nonneg: "0 \<le> ?total"
    by (intro sum_list_nonneg) (auto simp: list_all_iff)
  from assms(1) have amt: "0 \<le> b_amount b" and
    pcts: "\<forall>t \<in> set (thresholds b). 1 \<le> percentage t \<and> percentage t \<le> 100"
    by (simp_all add: budget_schema_ok_def list_all_iff)
  have ok: "budget_schema_ok ?b2"
    using assms(1) nonneg by (auto simp: budget_schema_ok_def list_all_iff)
  have run: "recalculateBudgetSpending es b = Inr (budget_pre_save ?b2)"
  proof (cases "?total < b_amount b")
    case True
    with ok show ?thesis by (simp add: recalculateBudgetSpending_def budget_save_def Let_def)
  next
    case False
    with ok show ?thesis by (simp add: recalculateBudgetSpending_def budget_save_def Let_def)
  qed
  have sp: "spent (budget_pre_save ?b2) = ?total"
    by (simp add: budget_pre_save_spent)
  have pct: "percentageUsed (budget_pre_save ?b2) = js_min100 ?raw"
    by (simp add: percentageUsed_def budget_pre_save_spent budget_pre_save_amount)
  have cmp: "js_lt (js_min100 ?raw) p = (if ?total < b_amount b then js_lt ?raw p else False)"
    if "p \<le> 100" for p
  proof (cases "?total < b_amount b")
    case True
    with nonneg have pos: "0 < b_amount b" by simp
    with True have "?total / b_amount b * 100 < 100" by (simp add: divide_simps)
    with pos True show ?thesis by (simp add: js_div_def min_def)
  next
    case False
    show ?thesis
    proof (cases "b_amount b = 0")
      case True
      with False nonneg that show ?thesis by (simp add: js_div_def)
    next
      case nz: False
      with amt have pos: "0 < b_amount b" by simp
      with False have "100 \<le> ?total / b_amount b * 100" by (simp add: divide_simps)
      with nz False that show ?thesis by (simp add: js_div_def min_def)
    qed
  qed
  have ths2: "thresholds ?b2 = (if ?total < b_amount b then map ?reset (thresholds b) else thresholds b)"
    by simp
  have each: "i < length (thresholds (budget_pre_save ?b2))
        \<and> thresholds (budget_pre_save ?b2) ! i
            = (if ?total < b_amount b then ?reset (thresholds b ! i) else thresholds b ! i)"
    if "i < length (thresholds b)" for i
    using that budget_pre_save_prefix [of i ?b2] by (simp split: if_splits)
  have partB: "\<forall>i < length (thresholds b).
                 i < length (thresholds (budget_pre_save ?b2))
                 \<and> percentage (thresholds (budget_pre_save ?b2) ! i) = percentage (thresholds b ! i)
                 \<and> (if js_lt (percentageUsed (budget_pre_save ?b2)) (percentage (thresholds b ! i))
                    then \<not> triggered (thresholds (budget_pre_save ?b2) ! i)
                         \<and> triggeredAt (thresholds (budget_pre_save ?b2) ! i) = None
                    else thresholds (budget_pre_save ?b2) ! i = thresholds b ! i)"
  proof (intro allI impI)
    fix i
    assume i: "i < length (thresholds b)"
    then have "thresholds b ! i \<in> set (thresholds b)" by simp
    with pcts have "percentage (thresholds b ! i) \<le> 100" by blast
    from cmp [OF this] each [OF i] pct
    show "i < length (thresholds (budget_pre_save ?b2))
                 \<and> percentage (thresholds (budget_pre_save ?b2) ! i) = percentage (thresholds b ! i)
                 \<and> (if js_lt (percentageUsed (budget_pre_save ?b2)) (percentage (thresholds b ! i))
                    then \<not> triggered (thresholds (budget_pre_save ?b2) ! i)
                         \<and> triggeredAt (thresholds (budget_pre_save ?b2) ! i) = None
                    else thresholds (budget_pre_save ?b2) ! i = thresholds b ! i)"
      by (simp split: if_splits)
  qed
  have partA: "\<forall>t' \<in> set (thresholds (budget_pre_save ?b2)).
                 js_lt (percentageUsed (budget_pre_save ?b2)) (percentage t')
                 \<longrightarrow> \<not> triggered t' \<and> triggeredAt t' = None"
  proof (cases "thresholds b = []")
    case True
    then show ?thesis by (auto simp: budget_pre_save_def)
  next
    case False
    then have same: "thresholds (budget_pre_save ?b2) = thresholds ?b2"
      by (simp add: budget_pre_save_def)
    show ?thesis
    proof (intro ballI impI)
      fix t'
      assume mem: "t' \<in> set (thresholds (budget_pre_save ?b2))"
        and lt: "js_lt (percentageUsed (budget_pre_save ?b2)) (percentage t')"
      from mem same obtain i where i: "i < length (thresholds b)"
        and t': "t' = thresholds (budget_pre_save ?b2) ! i"
        by (auto simp: in_set_conv_nth split: if_splits)
      from partB i have "percentage t' = percentage (thresholds b ! i)"
        and "if js_lt (percentageUsed (budget_pre_save ?b2)) (percentage (thresholds b ! i))
             then \<not> triggered t' \<and> triggeredAt t' = None
             else t' = thresholds b ! i"
        unfolding t' by blast+
      with lt show "\<not> triggered t' \<and> triggeredAt t' = None" by simp
    qed
  qed
  show ?thesis
    unfolding run using sp partA partB by blast
qed

theorem recalculate_resets_thresholds_witness:
  "budget_schema_ok (sample_budget 1000 950
       [sample_threshold 50 True, sample_threshold 90 True, sample_threshold 100 False])
   \<and> list_all (\<lambda>e. 0 \<le> e_amount e)
        [sample_expense 1 600 Cancelled, sample_expense 2 350 Completed]
   \<and> (\<exists>b'. recalculateBudgetSpending
               [sample_expense 1 600 Cancelled, sample_expense 2 350 Completed]
               (sample_budget 1000 950
                  [sample_threshold 50 True, sample_threshold 90 True, sample_threshold 100 False])
             = Inr b'
          \<and> spent b' = 350
          \<and> \<not> triggered (thresholds b' ! 0) \<and> triggeredAt (thresholds b' ! 0) = None
          \<and> \<not> triggered (thresholds b' ! 1) \<and> triggeredAt (thresholds b' ! 1) = None
          \<and> \<not> triggered (thresholds b' ! 2))"
proof -
  let ?b = "sample_budget 1000 950
       [sample_threshold 50 True, sample_threshold 90 True, sample_threshold 100 False]"
  let ?es = "[sample_expense 1 600 Cancelled, sample_expense 2 350 Completed]"
  have ok: "budget_schema_ok ?b"
    by (simp add: budget_schema_ok_def sample_budget_def sample_threshold_def
        budget_categories_def expense_categories_def)
  have es: "list_all (\<lambda>e. 0 \<le> e_amount e) ?es"
    by (simp add: sample_expense_def)
  have total: "sum_list (map e_amount (filter (counts_toward ?b) ?es)) = 350"
    by (simp add: counts_toward_def sample_budget_def sample_expense_def)
  from recalculate_resets_thresholds [OF ok es]
  obtain b' where run: "recalculateBudgetSpending ?es ?b = Inr b'"
    and sp: "spent b' = sum_list (map e_amount (filter (counts_toward ?b) ?es))"
    and each: "\<forall>i < length (thresholds ?b).
                 i < length (thresholds b')
                 \<and> percentage (thresholds b' ! i) = percentage (thresholds ?b ! i)
                 \<and> (if js_lt (percentageUsed b') (percentage (thresholds ?b ! i))
                    then \<not> triggered (thresholds b' ! i) \<and> triggeredAt (thresholds b' ! i) = None
                    else thresholds b' ! i = thresholds ?b ! i)"
    by blast
  from sp total have sp': "spent b' = 350" by simp
  have amt: "b_amount b' = 1000"
    using recalculate_amount [OF run] by (simp add: sample_budget_def)
  from sp' amt have pct: "percentageUsed b' = Num 35"
    by (simp add: percentageUsed_def js_div_def)
  from each [rule_format, of 0] pct
  have t0: "\<not> triggered (thresholds b' ! 0) \<and> triggeredAt (thresholds b' ! 0) = None"
    by (simp add: sample_budget_def sample_threshold_def)
  from each [rule_format, of 1] pct
  have t1: "\<not> triggered (thresholds b' ! 1) \<and> triggeredAt (thresholds b' ! 1) = None"
    by (simp add: sample_budget_def sample_threshold_def)
  from each [rule_format, of 2] pct
  have t2: "\<not> triggered (thresholds b' ! 2)"
    by (simp add: sample_budget_def sample_threshold_def)
  from run sp' t0 t1 t2
  have "\<exists>b'. recalculateBudgetSpending ?es ?b = Inr b'
          \<and> spent b' = 350
          \<and> \<not> triggered (thresholds b' ! 0) \<and> triggeredAt (thresholds b' ! 0) = None
          \<and> \<not> triggered (thresholds b' ! 1) \<and> triggeredAt (thresholds b' ! 1) = None
          \<and> \<not> triggered (thresholds b' ! 2)"
    by blast
  with ok es show ?thesis by (intro conjI)
qed

text \<open>
  A recomputed \<open>spent\<close> above the amount: 1200 of 1000. The percentage used is 100 and
  the thresholds are left as they were.
\<close>

lemma recalculate_over_budget:
  "recalculateBudgetSpending [sample_expense 1 1200 Completed]
     (sample_budget 1000 0
        [sample_threshold 50 True, sample_threshold 90 True, sample_threshold 100 True])
   = Inr (sample_budget 1000 1200
        [sample_threshold 50 True, sample_threshold 90 True, sample_threshold 100 True])"
  by (simp add: recalculateBudgetSpending_def budget_save_def budget_schema_ok_def
      budget_pre_save_def counts_toward_def sample_budget_def sample_expense_def
      sample_threshold_def budget_categories_def expense_categories_def Let_def)

subsection \<open>Deleting a budget\<close>

lemma deleteBudget_found:
  assumes "find (\<lambda>b. b_id b = bid \<and> b_user b = uid) bs = Some budget"
  shows "deleteBudget uid bid bs = (Inr (), filter (\<lambda>x. b_id x \<noteq> bid) bs)"
proof -
  from assms have "b_id budget = bid" by (auto simp: find_Some_iff)
  with assms show ?thesis by (simp add: deleteBudget_def)
qed

text \<open>
  C8, as the code has it. Deleting a budget is a hard delete: when the user owns a budget
  with the given id, \<open>deleteBudget\<close> answers with success and leaves the collection
  without any document of that id, every other document as it was; otherwise it answers
  404 and leaves the collection unchanged. No path sets \<open>isActive\<close> of a budget to
  false.
\<close>

theorem deleteBudget_removes_document:
  "(case find (\<lambda>b. b_id b = bid \<and> b_user b = uid) bs of
      None \<Rightarrow> deleteBudget uid bid bs = (Inl (ApiError 404 ''Budget not found''), bs)
    | Some budget \<Rightarrow>
        fst (deleteBudget uid bid bs) = Inr ()
        \<and> bid \<notin> b_id ` set (snd (deleteBudget uid bid bs))
        \<and> snd (deleteBudget uid bid bs) = filter (\<lambda>x. b_id x \<noteq> bid) bs)"
proof (cases "find (\<lambda>b. b_id b = bid \<and> b_user b = uid) bs")
  case None
  then show ?thesis by (simp add: deleteBudget_def)
next
  case (Some budget)
  from deleteBudget_found [OF Some] Some show ?thesis by auto
qed

theorem deleteBudget_removes_document_witness:
  "fst (deleteBudget 7 1 [sample_budget 1000 350 []]) = Inr ()
   \<and> 1 \<notin> b_id ` set (snd (deleteBudget 7 1 [sample_budget 1000 350 []]))
   \<and> deleteBudget 8 1 [sample_budget 1000 350 []]
       = (Inl (ApiError 404 ''Budget not found''), [sample_budget 1000 350 []])"
proof -
  have hit: "find (\<lambda>b. b_id b = 1 \<and> b_user b = 7) [sample_budget 1000 350 []]
             = Some (sample_budget 1000 350 [])"
    by (simp add: sample_budget_def)
  have miss: "find (\<lambda>b. b_id b = 1 \<and> b_user b = 8) [sample_budget 1000 350 []] = None"
    by (simp add: sample_budget_def)
  from deleteBudget_removes_document
         [where bid = 1 and uid = 7 and bs = "[sample_budget 1000 350 []]", unfolded hit]
  have a: "fst (deleteBudget 7 1 [sample_budget 1000 350 []]) = Inr ()
           \<and> 1 \<notin> b_id ` set (snd (deleteBudget 7 1 [sample_budget 1000 350 []]))"
    by simp
  from deleteBudget_removes_document
         [where bid = 1 and uid = 8 and bs = "[sample_budget 1000 350 []]", unfolded miss]
  have b: "deleteBudget 8 1 [sample_budget 1000 350 []]
           = (Inl (ApiError 404 ''Budget not found''), [sample_budget 1000 350 []])"
    by simp
  from a b show ?thesis by simp
qed

text \<open>
  Counterexample to C8 as stated (a soft delete): after deleting the only budget the
  collection is empty, so the budget is not retained with \<open>isActive = false\<close>.
\<close>

theorem deleteBudget_soft_counterexample:
  "deleteBudget 7 1 [sample_budget 1000 350 []] = (Inr (), [])"
  by (simp add: deleteBudget_def sample_budget_def)

section \<open>Properties of the income roll-up\<close>

lemma switch_is_multiplier: "switch_annualAmount i = i_amount i * multipliers (i_frequency i)"
  by (cases "i_frequency i") (simp_all add: switch_annualAmount_def multipliers_def)

lemma getIncomeSummary_total:
  "totalAnnual (getIncomeSummary env uid incomes)
   = sum_list (map switch_annualAmount (filter (rollup_match env uid) incomes))"
  by (simp add: getIncomeSummary_def getTotalAnnualIncome_def Let_def)

text \<open>
  Counterexample to C7 as stated (every income source annualizes to amount times
  multiplier): the virtual \<open>annualAmount\<close> returns 0 for an inactive source. An
  inactive monthly source of 5000 has annual amount 0, not 60000.
\<close>

theorem annualAmount_inactive_counterexample:
  "annualAmount (sample_income 5000 Monthly False None) = 0
   \<and> i_amount (sample_income 5000 Monthly False None)
       * multipliers (i_frequency (sample_income 5000 Monthly False None)) = 60000
   \<and> annualAmount (sample_income 5000 Monthly False None)
       \<noteq> i_amount (sample_income 5000 Monthly False None)
         * multipliers (i_frequency (sample_income 5000 Monthly False None))"
  by (simp add: annualAmount_def multipliers_def sample_income_def)

text \<open>
  C7, as the code has it. The multipliers are 0 for one-time, 52 for weekly, 26 for
  bi-weekly, 12 for monthly, 4 for quarterly and 1 for yearly. The annualized value of
  an active income source is its amount times the multiplier of its frequency, and that
  of an inactive source is 0; the monthly value is a twelfth of the annualized one. The
  total annual income of a user is the sum of amount times multiplier over exactly the
  user's sources that are active and have no end date or an end date not before now.
\<close>

theorem income_annualization:
  "multipliers OneTime = 0 \<and> multipliers Weekly = 52 \<and> multipliers BiWeekly = 26
   \<and> multipliers Monthly = 12 \<and> multipliers Quarterly = 4 \<and> multipliers Yearly = 1
   \<and> annualAmount i = (if i_isActive i then i_amount i * multipliers (i_frequency i) else 0)
   \<and> monthlyAmount i = annualAmount i / 12
   \<and> totalAnnual (getIncomeSummary env uid incomes)
       = sum_list (map (\<lambda>s. i_amount s * multipliers (i_frequency s))
           (filter (\<lambda>s. i_user s = uid \<and> i_isActive s
                        \<and> (case i_endDate s of None \<Rightarrow> True | Some d \<Rightarrow> now env \<le> d))
                   incomes))"
proof -
  have table: "multipliers OneTime = 0 \<and> multipliers Weekly = 52 \<and> multipliers BiWeekly = 26
      \<and> multipliers Monthly = 12 \<and> multipliers Quarterly = 4 \<and> multipliers Yearly = 1"
    by (simp add: multipliers_def)
  have virt: "annualAmount i = (if i_isActive i then i_amount i * multipliers (i_frequency i) else 0)"
    by (simp add: annualAmount_def)
  have month: "monthlyAmount i = annualAmount i / 12"
    by (simp add: monthlyAmount_def)
  have same_filter: "rollup_match env uid
      = (\<lambda>s. i_user s = uid \<and> i_isActive s
              \<and> (case i_endDate s of None \<Rightarrow> True | Some d \<Rightarrow> now env \<le> d))"
    by (rule ext) (simp add: rollup_match_def)
  have same_value: "switch_annualAmount = (\<lambda>s. i_amount s * multipliers (i_frequency s))"
    by (rule ext) (rule switch_is_multiplier)
  have total: "totalAnnual (getIncomeSummary env uid incomes)
       = sum_list (map (\<lambda>s. i_amount s * multipliers (i_frequency s))
           (filter (\<lambda>s. i_user s = uid \<and> i_isActive s
                        \<and> (case i_endDate s of None \<Rightarrow> True | Some d \<Rightarrow> now env \<le> d))
                   incomes))"
    using getIncomeSummary_total [of env uid incomes]
    unfolding same_filter same_value .
  from table virt month total show ?thesis by (intro conjI) simp_all
qed

theorem income_annualization_witness:
  "annualAmount (sample_income 5000 Monthly True None) = 60000
   \<and> monthlyAmount (sample_income 5000 Monthly True None) = 5000
   \<and> annualAmount (sample_income 1000 Weekly True None) = 52000
   \<and> annualAmount (sample_income 1000 Weekly False None) = 0
   \<and> totalAnnual (getIncomeSummary (sample_env 20) 7
        [sample_income 5000 Monthly True None,
         sample_income 1000 Weekly False None,
         sample_income 300 Quarterly True (Some 10),
         sample_income 200 Yearly True (Some 30)]) = 60200"
proof -
  note a = income_annualization [of "sample_income 5000 Monthly True None" "sample_env 20" 7
        "[sample_income 5000 Monthly True None,
          sample_income 1000 Weekly False None,
          sample_income 300 Quarterly True (Some 10),
          sample_income 200 Yearly True (Some 30)]"]
  note b = income_annualization [of "sample_income 1000 Weekly True None" "sample_env 20" 7 "[]"]
  note c = income_annualization [of "sample_income 1000 Weekly False None" "sample_env 20" 7 "[]"]
  from a have a1: "annualAmount (sample_income 5000 Monthly True None) = 60000"
    by (simp add: sample_income_def)
  from a a1 have a2: "monthlyAmount (sample_income 5000 Monthly True None) = 5000"
    by simp
  from b have b1: "annualAmount (sample_income 1000 Weekly True None) = 52000"
    by (simp add: sample_income_def)
  from c have c1: "annualAmount (sample_income 1000 Weekly False None) = 0"
    by (simp add: sample_income_def)
  from a have t: "totalAnnual (getIncomeSummary (sample_env 20) 7
        [sample_income 5000 Monthly True None,
         sample_income 1000 Weekly False None,
         sample_income 300 Quarterly True (Some 10),
         sample_income 200 Yearly True (Some 30)]) = 60200"
    by (simp add: sample_income_def sample_env_def)
  from a1 a2 b1 c1 t show ?thesis by (intro conjI)
qed

section \<open>Properties of the expense mutations\<close>

text \<open>
  C1. The two ways of maintaining \<open>spent\<close> do not converge. The user creates a food
  expense of 100 dated inside the window of the food budget, then cancels it with an
  update of its status. The update changes neither amount nor category, so
  \<open>updateExpense\<close> applies no delta: the incrementally maintained \<open>spent\<close> is still
  100, while the full recompute over the ledger, which counts completed expenses only,
  gives 0.
\<close>

theorem cancelled_expense_breaks_convergence:
  "(let d1 = snd (createExpense no_faults (sample_env 20) 7 1 lunch_request sample_db);
        d2 = snd (updateExpense no_faults (sample_env 30) 7 1 cancel_update d1)
    in case budgets d2 of
         [b] \<Rightarrow> spent b = 100
                \<and> (case recalculateBudgetSpending (expenses d2) b of
                      Inr b' \<Rightarrow> spent b' = 0
                    | Inl e \<Rightarrow> False)
       | _ \<Rightarrow> False)"
  by code_simp

text \<open>
  The same run, step by step: the update leaves amount and category as they were, so its
  guard is false and the budgets are not touched; the ledger then holds no completed
  expense for the budget.
\<close>

theorem cancelled_expense_breaks_convergence_witness:
  "(let d1 = snd (createExpense no_faults (sample_env 20) 7 1 lunch_request sample_db);
        d2 = snd (updateExpense no_faults (sample_env 30) 7 1 cancel_update d1)
    in map e_amount (expenses d1) = [100] \<and> map e_category (expenses d1) = [''food'']
       \<and> map e_amount (expenses d2) = [100] \<and> map e_category (expenses d2) = [''food'']
       \<and> map e_status (expenses d2) = [Cancelled]
       \<and> budgets d2 = budgets d1
       \<and> map spent (budgets d2) = [100]
       \<and> map (\<lambda>b. sum_list (map e_amount (filter (counts_toward b) (expenses d2)))) (budgets d2) = [0])"
proof -
  let ?d1 = "snd (createExpense no_faults (sample_env 20) 7 1 lunch_request sample_db)"
  let ?d2 = "snd (updateExpense no_faults (sample_env 30) 7 1 cancel_update ?d1)"
  have steps: "map e_amount (expenses ?d1) = [100] \<and> map e_category (expenses ?d1) = [''food'']
       \<and> map e_amount (expenses ?d2) = [100] \<and> map e_category (expenses ?d2) = [''food'']
       \<and> map e_status (expenses ?d2) = [Cancelled]
       \<and> budgets ?d2 = budgets ?d1
       \<and> map (\<lambda>b. sum_list (map e_amount (filter (counts_toward b) (expenses ?d2)))) (budgets ?d2) = [0]"
    by code_simp
  from cancelled_expense_breaks_convergence
  have "case budgets ?d2 of [b] \<Rightarrow> spent b = 100 | _ \<Rightarrow> False"
    by (simp add: Let_def split: list.splits)
  then have sp: "map spent (budgets ?d2) = [100]"
    by (simp split: list.splits)
  show ?thesis
    unfolding Let_def
    apply (insert steps sp)
    apply (elim conjE)
    apply (intro conjI)
           apply assumption+
    done
qed

lemma createExpense_ignores_faults:
  "fst (createExpense fails env uid newId rq d) = fst (createExpense no_faults env uid newId rq d)
   \<and> expenses (snd (createExpense fails env uid newId rq d))
       = expenses (snd (createExpense no_faults env uid newId rq d))
   \<and> users (snd (createExpense fails env uid newId rq d))
       = users (snd (createExpense no_faults env uid newId rq d))"
  by (simp add: createExpense_def Let_def split: option.splits sum.splits)

lemma updateExpense_ignores_faults:
  "fst (updateExpense fails env uid eid up d) = fst (updateExpense no_faults env uid eid up d)
   \<and> expenses (snd (updateExpense fails env uid eid up d))
       = expenses (snd (updateExpense no_faults env uid eid up d))
   \<and> users (snd (updateExpense fails env uid eid up d))
       = users (snd (updateExpense no_faults env uid eid up d))"
  by (simp add: updateExpense_def Let_def split: option.splits sum.splits)

lemma deleteExpense_ignores_faults:
  "fst (deleteExpense fails env uid eid d) = fst (deleteExpense no_faults env uid eid d)
   \<and> expenses (snd (deleteExpense fails env uid eid d))
       = expenses (snd (deleteExpense no_faults env uid eid d))
   \<and> users (snd (deleteExpense fails env uid eid d))
       = users (snd (deleteExpense no_faults env uid eid d))"
  by (simp add: deleteExpense_def Let_def split: option.splits)

lemma updateBudgetSpending_stale:
  assumes "fails FindCategoryBudget = Some e"
  shows "updateBudgetSpending fails env uid category amount bs = bs"
  using assms by (simp add: updateBudgetSpending_def find_and_updateSpent_def)

text \<open>
  C10. An expense mutation never fails because of the follow-on budget update. Whatever
  storage calls on budgets reject inside \<open>updateBudgetSpending\<close>, each of
  \<open>createExpense\<close>, \<open>updateExpense\<close> and \<open>deleteExpense\<close> answers exactly as it does
  when none rejects and leaves the same expenses and users behind; and when the first
  lookup rejects, the helper returns the budgets as they were, stale.
\<close>

theorem budget_failures_are_swallowed:
  "fst (createExpense fails env uid newId rq d) = fst (createExpense no_faults env uid newId rq d)
   \<and> expenses (snd (createExpense fails env uid newId rq d))
       = expenses (snd (createExpense no_faults env uid newId rq d))
   \<and> fst (updateExpense fails env uid eid up d) = fst (updateExpense no_faults env uid eid up d)
   \<and> expenses (snd (updateExpense fails env uid eid up d))
       = expenses (snd (updateExpense no_faults env uid eid up d))
   \<and> fst (deleteExpense fails env uid eid d) = fst (deleteExpense no_faults env uid eid d)
   \<and> expenses (snd (deleteExpense fails env uid eid d))
       = expenses (snd (deleteExpense no_faults env uid eid d))
   \<and> (case fails FindCategoryBudget of
         Some e \<Rightarrow> updateBudgetSpending fails env uid category amount bs = bs
       | None \<Rightarrow> True)"
  using createExpense_ignores_faults [of fails env uid newId rq d]
    updateExpense_ignores_faults [of fails env uid eid up d]
    deleteExpense_ignores_faults [of fails env uid eid d]
    updateBudgetSpending_stale [of fails _ env uid category amount bs]
  by (simp split: option.splits)

theorem budget_failures_are_swallowed_witness:
  "fst (createExpense storage_down (sample_env 20) 7 1 lunch_request sample_db)
     = Inr \<lparr>e_id = 1, e_user = 7, e_amount = 100, e_description = ''lunch'',
             e_category = ''food'', e_date = 20, e_status = Completed\<rparr>
   \<and> map e_amount (expenses (snd (createExpense storage_down (sample_env 20) 7 1 lunch_request sample_db)))
       = [100]
   \<and> updateBudgetSpending storage_down (sample_env 20) 7 ''food'' 100 (budgets sample_db)
       = budgets sample_db"
proof -
  have quiet: "fst (createExpense no_faults (sample_env 20) 7 1 lunch_request sample_db)
     = Inr \<lparr>e_id = 1, e_user = 7, e_amount = 100, e_description = ''lunch'',
             e_category = ''food'', e_date = 20, e_status = Completed\<rparr>
   \<and> map e_amount (expenses (snd (createExpense no_faults (sample_env 20) 7 1 lunch_request sample_db)))
       = [100]"
    by code_simp
  have down: "storage_down FindCategoryBudget = Some (Error ''connection lost'')"
    by (simp add: storage_down_def)
  note inst = budget_failures_are_swallowed
      [where fails = storage_down and env = "sample_env 20" and uid = 7 and newId = 1
         and rq = lunch_request and d = sample_db and eid = 1 and up = cancel_update
         and category = "''food''" and amount = 100 and bs = "budgets sample_db"]
  from inst quiet
  have a: "fst (createExpense storage_down (sample_env 20) 7 1 lunch_request sample_db)
     = Inr \<lparr>e_id = 1, e_user = 7, e_amount = 100, e_description = ''lunch'',
             e_category = ''food'', e_date = 20, e_status = Completed\<rparr>
   \<and> map e_amount (expenses (snd (createExpense storage_down (sample_env 20) 7 1 lunch_request sample_db)))
       = [100]"
    by simp
  from inst
  have b: "updateBudgetSpending storage_down (sample_env 20) 7 ''food'' 100 (budgets sample_db)
       = budgets sample_db"
    unfolding down by simp
  from a b show ?thesis by simp
qed

end
